theory Spec2Isabelle
  imports Complex_Main "HOL-Library.Multiset"
begin

section \<open>STween: a shallow embedding of the tween registry\<close>

text \<open>
  The embedding follows \<^verbatim>\<open>src/STween.h\<close> with the template instantiated at
  \<^verbatim>\<open>T = float\<close>. Member functions take the address of the object they are called on
  (\<^verbatim>\<open>this\<close>) and a world holding every \<^verbatim>\<open>STween\<close> object, the caller-owned storage that
  \<^verbatim>\<open>T*\<close> pointers refer to, and the log of callback invocations and pointer writes.

  Numbers. A \<^verbatim>\<open>float\<close> that the code only adds and compares (\<^verbatim>\<open>duration\<close>,
  \<^verbatim>\<open>timeCounter\<close>, \<^verbatim>\<open>deltaTime\<close>) is a \<open>real\<close>: rounding and overflow are not modelled, and
  \<^verbatim>\<open>timeCounter += deltaTime\<close> adds exactly, where the code rounds the sum to a \<^verbatim>\<open>float\<close>. The
  statements below are chosen so that this does not matter: a concrete run uses numbers
  whose sums are exact in binary floating point, and a general statement compares two
  runs that add the same numbers, or holds whatever the sums are (the index, the order of
  the vector, the chain lists), or says what one call does with the \<^verbatim>\<open>timeCounter\<close> it
  finds.
  A value of type \<^verbatim>\<open>T\<close> is a \<open>flt\<close>: either a finite number or \<open>NonFin\<close>, which stands
  for a NaN or an infinity. The only operation of the code that leaves the finite numbers
  is the division \<^verbatim>\<open>timeCounter / duration\<close> by zero; every later operation of an easing
  formula (\<^verbatim>\<open>+\<close>, \<^verbatim>\<open>-\<close>, \<^verbatim>\<open>*\<close>, \<^verbatim>\<open>/ 2\<close>) maps a non-finite operand to a non-finite result.
  The literals \<^verbatim>\<open>1.70158f\<close> and \<^verbatim>\<open>1.525f\<close> are the decimal fractions they denote. An
  \<^verbatim>\<open>int\<close> (\<^verbatim>\<open>tweenID\<close>, \<^verbatim>\<open>m_lastTweenIndex\<close>, \<^verbatim>\<open>counter\<close>) is an \<open>int\<close>: it counts the
  elements of a vector and stays far from the bounds of the machine type.
\<close>

subsection \<open>Values, storage and observable events\<close>

datatype flt = Fin real | NonFin

type_synonym addr = nat

text \<open>A \<^verbatim>\<open>T*\<close> is \<open>None\<close> for \<^verbatim>\<open>nullptr\<close> and \<open>Some a\<close> for the storage cell \<open>a\<close>.\<close>

type_synonym ptr = "addr option"

type_synonym mem = "addr \<Rightarrow> flt"

text \<open>
  A \<^verbatim>\<open>std::function\<close> is \<open>None\<close> when empty and \<open>Some c\<close> when it holds the callable
  named \<open>c\<close>. Calling it is recorded as an event; the callable itself is taken not to touch
  any \<^verbatim>\<open>STween\<close> object or the storage of a tween. A write through a tween's pointer
  changes the storage and is recorded as well.
\<close>

type_synonym callback = "nat option"

datatype event = Write addr flt | Step nat flt | Finish nat

text \<open>
  Undefined behaviour the embedding makes explicit (a write or read through a null pointer,
  an index outside the vector), and a call that the revision at hand cannot compile: a
  program containing it has no run.
\<close>

datatype error = NullDeref | OutOfRange | IllFormed

subsection \<open>\<^verbatim>\<open>enum EasingFunction\<close>\<close>

datatype EasingFunction =
    EasingFunction_Linear
  | EasingFunction_QuadranticIn
  | EasingFunction_QuadranticOut
  | EasingFunction_QuadranticInOut
  | EasingFunction_CubicIn
  | EasingFunction_CubicOut
  | EasingFunction_CubicInOut
  | EasingFunction_QuintIn
  | EasingFunction_QuintOut
  | EasingFunction_QuintInOut
  | EasingFunction_BackIn
  | EasingFunction_BackOut
  | EasingFunction_BackInOut

text \<open>
  An object of the unscoped enumeration holds an integer; the enumerators are \<open>0\<close> to
  \<open>12\<close> in declaration order. The field \<^verbatim>\<open>easing\<close> is kept as that integer, so that a value
  that is no enumerator can be stored, and \<open>enumerator\<close> names it when there is a name.
\<close>

definition enumerator :: "int \<Rightarrow> EasingFunction option" where
  "enumerator i =
     (if i = 0 then Some EasingFunction_Linear
      else if i = 1 then Some EasingFunction_QuadranticIn
      else if i = 2 then Some EasingFunction_QuadranticOut
      else if i = 3 then Some EasingFunction_QuadranticInOut
      else if i = 4 then Some EasingFunction_CubicIn
      else if i = 5 then Some EasingFunction_CubicOut
      else if i = 6 then Some EasingFunction_CubicInOut
      else if i = 7 then Some EasingFunction_QuintIn
      else if i = 8 then Some EasingFunction_QuintOut
      else if i = 9 then Some EasingFunction_QuintInOut
      else if i = 10 then Some EasingFunction_BackIn
      else if i = 11 then Some EasingFunction_BackOut
      else if i = 12 then Some EasingFunction_BackInOut
      else None)"

subsection \<open>\<^verbatim>\<open>struct TweenData\<close>\<close>

text \<open>
  The structure holds a vector of its own type, so it is a datatype with selectors named
  after the fields, in the order of declaration.
\<close>

datatype TweenData = TweenData
  (tweenID: int)
  (fromReady: bool)
  (byPointer: bool)
  (reversed: bool)
  (initialValue: ptr)
  (initialCpy: flt)
  (finalValue: flt)
  (duration: real)
  (easing: int)
  (timeCounter: real)
  (finishCallback: callback)
  (stepCallback: callback)
  (endTween: "TweenData list")

text \<open>Assignment to one field.\<close>

definition set_tweenID :: "int \<Rightarrow> TweenData \<Rightarrow> TweenData" where
  "set_tweenID v t = TweenData v (fromReady t) (byPointer t) (reversed t) (initialValue t)
     (initialCpy t) (finalValue t) (duration t) (easing t) (timeCounter t)
     (finishCallback t) (stepCallback t) (endTween t)"

definition set_fromReady :: "bool \<Rightarrow> TweenData \<Rightarrow> TweenData" where
  "set_fromReady v t = TweenData (tweenID t) v (byPointer t) (reversed t) (initialValue t)
     (initialCpy t) (finalValue t) (duration t) (easing t) (timeCounter t)
     (finishCallback t) (stepCallback t) (endTween t)"

definition set_reversed :: "bool \<Rightarrow> TweenData \<Rightarrow> TweenData" where
  "set_reversed v t = TweenData (tweenID t) (fromReady t) (byPointer t) v (initialValue t)
     (initialCpy t) (finalValue t) (duration t) (easing t) (timeCounter t)
     (finishCallback t) (stepCallback t) (endTween t)"

definition set_finalValue :: "flt \<Rightarrow> TweenData \<Rightarrow> TweenData" where
  "set_finalValue v t = TweenData (tweenID t) (fromReady t) (byPointer t) (reversed t)
     (initialValue t) (initialCpy t) v (duration t) (easing t) (timeCounter t)
     (finishCallback t) (stepCallback t) (endTween t)"

definition set_duration :: "real \<Rightarrow> TweenData \<Rightarrow> TweenData" where
  "set_duration v t = TweenData (tweenID t) (fromReady t) (byPointer t) (reversed t)
     (initialValue t) (initialCpy t) (finalValue t) v (easing t) (timeCounter t)
     (finishCallback t) (stepCallback t) (endTween t)"

definition set_easing :: "int \<Rightarrow> TweenData \<Rightarrow> TweenData" where
  "set_easing v t = TweenData (tweenID t) (fromReady t) (byPointer t) (reversed t)
     (initialValue t) (initialCpy t) (finalValue t) (duration t) v (timeCounter t)
     (finishCallback t) (stepCallback t) (endTween t)"

definition set_timeCounter :: "real \<Rightarrow> TweenData \<Rightarrow> TweenData" where
  "set_timeCounter v t = TweenData (tweenID t) (fromReady t) (byPointer t) (reversed t)
     (initialValue t) (initialCpy t) (finalValue t) (duration t) (easing t) v
     (finishCallback t) (stepCallback t) (endTween t)"

definition set_finishCallback :: "callback \<Rightarrow> TweenData \<Rightarrow> TweenData" where
  "set_finishCallback v t = TweenData (tweenID t) (fromReady t) (byPointer t) (reversed t)
     (initialValue t) (initialCpy t) (finalValue t) (duration t) (easing t) (timeCounter t)
     v (stepCallback t) (endTween t)"

definition set_stepCallback :: "callback \<Rightarrow> TweenData \<Rightarrow> TweenData" where
  "set_stepCallback v t = TweenData (tweenID t) (fromReady t) (byPointer t) (reversed t)
     (initialValue t) (initialCpy t) (finalValue t) (duration t) (easing t) (timeCounter t)
     (finishCallback t) v (endTween t)"

definition set_endTween :: "TweenData list \<Rightarrow> TweenData \<Rightarrow> TweenData" where
  "set_endTween v t = TweenData (tweenID t) (fromReady t) (byPointer t) (reversed t)
     (initialValue t) (initialCpy t) (finalValue t) (duration t) (easing t) (timeCounter t)
     (finishCallback t) (stepCallback t) v"

definition set_byPointer :: "bool \<Rightarrow> TweenData \<Rightarrow> TweenData" where
  "set_byPointer v t = TweenData (tweenID t) (fromReady t) v (reversed t) (initialValue t)
     (initialCpy t) (finalValue t) (duration t) (easing t) (timeCounter t)
     (finishCallback t) (stepCallback t) (endTween t)"

definition set_initialValue :: "ptr \<Rightarrow> TweenData \<Rightarrow> TweenData" where
  "set_initialValue v t = TweenData (tweenID t) (fromReady t) (byPointer t) (reversed t) v
     (initialCpy t) (finalValue t) (duration t) (easing t) (timeCounter t)
     (finishCallback t) (stepCallback t) (endTween t)"

definition set_initialCpy :: "flt \<Rightarrow> TweenData \<Rightarrow> TweenData" where
  "set_initialCpy v t = TweenData (tweenID t) (fromReady t) (byPointer t) (reversed t)
     (initialValue t) v (finalValue t) (duration t) (easing t) (timeCounter t)
     (finishCallback t) (stepCallback t) (endTween t)"

text \<open>
  The constructor \<^verbatim>\<open>TweenData(int tID)\<close> initialises \<^verbatim>\<open>tweenID\<close>, \<^verbatim>\<open>initialValue\<close>,
  \<^verbatim>\<open>reversed\<close> and \<^verbatim>\<open>easing\<close>; the two \<^verbatim>\<open>std::function\<close> members and the vector are
  default-constructed empty. The other members are left as the storage held them: \<open>raw\<close>
  is that indeterminate content.
\<close>

definition TweenData_ctor :: "int \<Rightarrow> TweenData \<Rightarrow> TweenData" where
  "TweenData_ctor tID raw = TweenData tID (fromReady raw) (byPointer raw) False None
     (initialCpy raw) (finalValue raw) (duration raw) 0 (timeCounter raw) None None []"

subsection \<open>\<^verbatim>\<open>class STween\<close> and the world\<close>

record STween =
  m_lastTweenIndex :: int
  m_tweenVec :: "TweenData list"

record world =
  objs :: "nat \<Rightarrow> STween"
  heap :: mem
  trace :: "event list"

definition STween_ctor :: STween where
  "STween_ctor = \<lparr>m_lastTweenIndex = - 1, m_tweenVec = []\<rparr>"

definition put :: "nat \<Rightarrow> STween \<Rightarrow> world \<Rightarrow> world" where
  "put this s w = w\<lparr>objs := (objs w)(this := s)\<rparr>"

subsection \<open>The easing functions\<close>

text \<open>
  Each formula is the body of the member function of the same name, on finite numbers.
  \<open>lift\<close> applies a formula when the position and both bounds are finite and gives
  \<open>NonFin\<close> otherwise.
\<close>

definition Linear :: "real \<Rightarrow> real \<Rightarrow> real \<Rightarrow> real" where
  "Linear position start endv = (endv - start) * position + start"

definition QuadIn :: "real \<Rightarrow> real \<Rightarrow> real \<Rightarrow> real" where
  "QuadIn position start endv = (endv - start) * position * position + start"

definition QuadOut :: "real \<Rightarrow> real \<Rightarrow> real \<Rightarrow> real" where
  "QuadOut position start endv = ((endv - start) * - 1) * position * (position - 2) + start"

definition QuadInOut :: "real \<Rightarrow> real \<Rightarrow> real \<Rightarrow> real" where
  "QuadInOut position start endv =
     (let position = position * 2 in
      if position < 1 then ((endv - start) / 2) * position * position + start
      else let position = position - 1 in
        (((endv - start) * 1) / 2) * (position * (position - 2) - 1) + start)"

definition CubicIn :: "real \<Rightarrow> real \<Rightarrow> real \<Rightarrow> real" where
  "CubicIn position start endv = (endv - start) * position * position * position + start"

definition CubicOut :: "real \<Rightarrow> real \<Rightarrow> real \<Rightarrow> real" where
  "CubicOut position start endv =
     (let position = position - 1 in
      (endv - start) * (position * position * position + 1) + start)"

definition CubicInOut :: "real \<Rightarrow> real \<Rightarrow> real \<Rightarrow> real" where
  "CubicInOut position start endv =
     (let position = position * 2 in
      if position < 1 then ((endv - start) / 2) * position * position * position + start
      else let position = position - 2 in
        ((endv - start) / 2) * (position * position * position + 2) + start)"

definition QuintIn :: "real \<Rightarrow> real \<Rightarrow> real \<Rightarrow> real" where
  "QuintIn position start endv =
     (endv - start) * position * position * position * position * position + start"

definition QuintOut :: "real \<Rightarrow> real \<Rightarrow> real \<Rightarrow> real" where
  "QuintOut position start endv =
     (let position = position - 1 in
      (endv - start) * (position * position * position * position * position + 1) + start)"

definition QuintInOut :: "real \<Rightarrow> real \<Rightarrow> real \<Rightarrow> real" where
  "QuintInOut position start endv =
     (let position = position * 2 in
      if position < 1
      then ((endv - start) / 2) * (position * position * position * position * position) + start
      else let position = position - 2 in
        ((endv - start) / 2) * (position * position * position * position * position + 2)
          + start)"

definition BackIn :: "real \<Rightarrow> real \<Rightarrow> real \<Rightarrow> real" where
  "BackIn position start endv =
     (let s = 170158 / 100000; postFix = position in
      (endv - start) * postFix * position * ((s + 1) * position - s) + start)"

definition BackOut :: "real \<Rightarrow> real \<Rightarrow> real \<Rightarrow> real" where
  "BackOut position start endv =
     (let s = 170158 / 100000; position = position - 1 in
      (endv - start) * (position * position * ((s + 1) * position + s) + 1) + start)"

definition BackInOut :: "real \<Rightarrow> real \<Rightarrow> real \<Rightarrow> real" where
  "BackInOut position start endv =
     (let s = 170158 / 100000; t = position; b = start; c = endv - start; d = 1;
          s = s * (1525 / 1000);
          t = t / (d / 2)
      in if t < 1 then c / 2 * (t * t * ((s + 1) * t - s)) + b
         else let t = t - 2; postFix = t in
           c / 2 * (postFix * t * ((s + 1) * t + s) + 2) + b)"

definition lift :: "(real \<Rightarrow> real \<Rightarrow> real \<Rightarrow> real) \<Rightarrow> flt \<Rightarrow> flt \<Rightarrow> flt \<Rightarrow> flt" where
  "lift f position start endv =
     (case position of NonFin \<Rightarrow> NonFin | Fin p \<Rightarrow>
      (case start of NonFin \<Rightarrow> NonFin | Fin a \<Rightarrow>
       (case endv of NonFin \<Rightarrow> NonFin | Fin b \<Rightarrow> Fin (f p a b))))"

text \<open>\<^verbatim>\<open>timeCounter / duration\<close>: not a finite number when the duration is zero.\<close>

definition fdiv :: "real \<Rightarrow> real \<Rightarrow> flt" where
  "fdiv a b = (if b = 0 then NonFin else Fin (a / b))"

subsection \<open>The builder\<close>

text \<open>
  \<^verbatim>\<open>m_tweenVec[m_lastTweenIndex]\<close>: an index outside the vector is undefined behaviour in
  the source and the error \<open>OutOfRange\<close> here.
\<close>

definition at_last :: "(TweenData \<Rightarrow> TweenData) \<Rightarrow> STween \<Rightarrow> error + STween" where
  "at_last f s =
     (let i = m_lastTweenIndex s in
      if 0 \<le> i \<and> i < int (length (m_tweenVec s))
      then Inr (s\<lparr>m_tweenVec := (m_tweenVec s)[nat i := f (m_tweenVec s ! nat i)]\<rparr>)
      else Inl OutOfRange)"

definition push_back :: "TweenData \<Rightarrow> STween \<Rightarrow> STween" where
  "push_back tween s = s\<lparr>m_tweenVec := m_tweenVec s @ [tween]\<rparr>"

definition ReleaseTweens :: "nat \<Rightarrow> world \<Rightarrow> world" where
  "ReleaseTweens this w = put this \<lparr>m_lastTweenIndex = - 1, m_tweenVec = []\<rparr> w"

text \<open>
  \<^verbatim>\<open>From(T* initVal)\<close> of \<^verbatim>\<open>src/STween.h\<close> has no embedding. Its first statement, line 193,
  is \<^verbatim>\<open>TweenData<T> tween(m_lastTweenIndex, initVal)\<close>, and \<^verbatim>\<open>TweenData\<close> declares the
  constructor \<^verbatim>\<open>TweenData(int)\<close> only (lines 67 to 72): the member cannot be instantiated,
  and a program that calls it does not compile. In this revision a by-pointer record
  enters an object through \<^verbatim>\<open>AddTween\<close> or \<^verbatim>\<open>AddTweens\<close>, or from a chain list.

  \<^verbatim>\<open>From(T initVal)\<close>.
\<close>

definition From_val :: "nat \<Rightarrow> flt \<Rightarrow> TweenData \<Rightarrow> world \<Rightarrow> world" where
  "From_val this initVal raw w =
     (let s = objs w this;
          tween = TweenData_ctor (m_lastTweenIndex s) raw;
          tween = set_fromReady True tween;
          tween = set_byPointer False tween;
          tween = set_initialValue None tween;
          tween = set_initialCpy initVal tween;
          tween = set_duration 0 tween;
          tween = set_timeCounter 0 tween;
          tween = set_endTween [] tween;
          s = push_back tween s;
          s = s\<lparr>m_lastTweenIndex := m_lastTweenIndex s + 1\<rparr>
      in put this s w)"

definition on_last :: "nat \<Rightarrow> (TweenData \<Rightarrow> TweenData) \<Rightarrow> world \<Rightarrow> error + world" where
  "on_last this f w =
     (case at_last f (objs w this) of Inl e \<Rightarrow> Inl e | Inr s \<Rightarrow> Inr (put this s w))"

definition To :: "nat \<Rightarrow> flt \<Rightarrow> world \<Rightarrow> error + world" where
  "To this finalVal w = on_last this (set_finalValue finalVal) w"

definition Time :: "nat \<Rightarrow> real \<Rightarrow> world \<Rightarrow> error + world" where
  "Time this sec w = on_last this (set_duration sec) w"

definition OnFinish :: "nat \<Rightarrow> callback \<Rightarrow> world \<Rightarrow> error + world" where
  "OnFinish this endCallback w = on_last this (set_finishCallback endCallback) w"

definition OnStep :: "nat \<Rightarrow> callback \<Rightarrow> world \<Rightarrow> error + world" where
  "OnStep this cb w = on_last this (set_stepCallback cb) w"

definition Reversed :: "nat \<Rightarrow> bool \<Rightarrow> world \<Rightarrow> error + world" where
  "Reversed this isReversed w = on_last this (set_reversed isReversed) w"

definition Easing :: "nat \<Rightarrow> int \<Rightarrow> world \<Rightarrow> error + world" where
  "Easing this easingType w = on_last this (set_easing easingType) w"

definition GetTweens :: "nat \<Rightarrow> world \<Rightarrow> TweenData list" where
  "GetTweens this w = m_tweenVec (objs w this)"

text \<open>\<^verbatim>\<open>Chain(STween<T>* chain)\<close>: \<^verbatim>\<open>chain->GetTweens()\<close> returns the vector by value.\<close>

definition Chain :: "nat \<Rightarrow> nat option \<Rightarrow> world \<Rightarrow> error + world" where
  "Chain this chain w =
     (case chain of
        None \<Rightarrow> Inl NullDeref
      | Some c \<Rightarrow> on_last this (set_endTween (GetTweens c w)) w)"

definition AddTween :: "nat \<Rightarrow> TweenData \<Rightarrow> world \<Rightarrow> world" where
  "AddTween this tween w =
     (let s = objs w this;
          tween = set_tweenID (m_lastTweenIndex s) tween;
          s = push_back tween s;
          s = s\<lparr>m_lastTweenIndex := m_lastTweenIndex s + 1\<rparr>
      in put this s w)"

definition AddTweens :: "nat \<Rightarrow> TweenData list \<Rightarrow> world \<Rightarrow> world" where
  "AddTweens this tweens w = fold (AddTween this) tweens w"

subsection \<open>\<^verbatim>\<open>Update\<close>\<close>

text \<open>Lines 252 to 323: the position, the bounds in the order of travel, and the switch.\<close>

definition tween_value :: "TweenData \<Rightarrow> flt" where
  "tween_value tween =
     (let timePos = fdiv (timeCounter tween) (duration tween);
          start = (if reversed tween then finalValue tween else initialCpy tween);
          endv = (if reversed tween then initialCpy tween else finalValue tween)
      in case enumerator (easing tween) of
           Some EasingFunction_Linear \<Rightarrow> lift Linear timePos start endv
         | Some EasingFunction_QuadranticIn \<Rightarrow> lift QuadIn timePos start endv
         | Some EasingFunction_QuadranticOut \<Rightarrow> lift QuadOut timePos start endv
         | Some EasingFunction_QuadranticInOut \<Rightarrow> lift QuadInOut timePos start endv
         | Some EasingFunction_CubicIn \<Rightarrow> lift CubicIn timePos start endv
         | Some EasingFunction_CubicOut \<Rightarrow> lift CubicOut timePos start endv
         | Some EasingFunction_CubicInOut \<Rightarrow> lift CubicInOut timePos start endv
         | Some EasingFunction_QuintIn \<Rightarrow> lift QuintIn timePos start endv
         | Some EasingFunction_QuintOut \<Rightarrow> lift QuintOut timePos start endv
         | Some EasingFunction_QuintInOut \<Rightarrow> lift QuintInOut timePos start endv
         | Some EasingFunction_BackIn \<Rightarrow> lift BackIn timePos start endv
         | Some EasingFunction_BackOut \<Rightarrow> lift BackOut timePos start endv
         | Some EasingFunction_BackInOut \<Rightarrow> lift BackInOut timePos start endv
         | None \<Rightarrow> lift Linear timePos start endv)"

text \<open>\<^verbatim>\<open>*tween.initialValue = v\<close>: through a null pointer, the error \<open>NullDeref\<close>.\<close>

definition assign :: "ptr \<Rightarrow> flt \<Rightarrow> world \<Rightarrow> error + world" where
  "assign p v w =
     (case p of
        None \<Rightarrow> Inl NullDeref
      | Some a \<Rightarrow> Inr (w\<lparr>heap := (heap w)(a := v), trace := trace w @ [Write a v]\<rparr>))"

definition call_step :: "callback \<Rightarrow> flt \<Rightarrow> world \<Rightarrow> world" where
  "call_step f v w = (case f of None \<Rightarrow> w | Some c \<Rightarrow> w\<lparr>trace := trace w @ [Step c v]\<rparr>)"

definition call_finish :: "callback \<Rightarrow> world \<Rightarrow> world" where
  "call_finish f w = (case f of None \<Rightarrow> w | Some c \<Rightarrow> w\<lparr>trace := trace w @ [Finish c]\<rparr>)"

text \<open>The local variables of \<^verbatim>\<open>Update\<close>.\<close>

record locals =
  tweensToAdd :: "TweenData list"
  tweensToDelete :: "int list"
  counter :: int

text \<open>
  The body of the first loop for one element of \<^verbatim>\<open>m_tweenVec\<close>: the element as the
  iteration leaves it, the locals and the world.
\<close>

definition Update_body ::
  "real \<Rightarrow> TweenData \<Rightarrow> locals \<Rightarrow> world \<Rightarrow> error + (TweenData \<times> locals \<times> world)" where
  "Update_body deltaTime tween l w =
     (if fromReady tween then
        (let val = tween_value tween in
         case (if byPointer tween then assign (initialValue tween) val w else Inr w) of
           Inl e \<Rightarrow> Inl e
         | Inr w \<Rightarrow>
            (let w = call_step (stepCallback tween) val w;
                 tween = set_tweenID (counter l) tween
             in if timeCounter tween \<ge> duration tween then
                  (case (if byPointer tween
                         then assign (initialValue tween)
                                (if reversed tween then initialCpy tween else finalValue tween) w
                         else Inr w) of
                     Inl e \<Rightarrow> Inl e
                   | Inr w \<Rightarrow>
                      (let tween = set_fromReady False tween;
                           l = l\<lparr>tweensToDelete := tweensToDelete l @ [counter l]\<rparr>;
                           w = call_finish (finishCallback tween) w;
                           l = l\<lparr>tweensToAdd := tweensToAdd l @ endTween tween\<rparr>;
                           tween = set_timeCounter (timeCounter tween + deltaTime) tween
                       in Inr (tween, l\<lparr>counter := counter l + 1\<rparr>, w)))
                else
                  (let tween = set_timeCounter (timeCounter tween + deltaTime) tween
                   in Inr (tween, l\<lparr>counter := counter l + 1\<rparr>, w))))
      else
        Inr (tween, l\<lparr>tweensToDelete := tweensToDelete l @ [counter l],
                        counter := counter l + 1\<rparr>, w))"

text \<open>
  The first loop, over the elements still to visit; \<open>seen\<close> holds the elements already
  visited, as the loop left them.
\<close>

fun Update_loop ::
  "real \<Rightarrow> TweenData list \<Rightarrow> TweenData list \<Rightarrow> locals \<Rightarrow> world
     \<Rightarrow> error + (TweenData list \<times> locals \<times> world)" where
  "Update_loop deltaTime [] seen l w = Inr (seen, l, w)"
| "Update_loop deltaTime (tween # rest) seen l w =
     (case Update_body deltaTime tween l w of
        Inl e \<Rightarrow> Inl e
      | Inr (tween', l', w') \<Rightarrow> Update_loop deltaTime rest (seen @ [tween']) l' w')"

text \<open>
  The second loop, over \<^verbatim>\<open>tweensToDelete\<close> from its last element to its first: the element
  at the index is overwritten by the last one, which is then popped. When the index is that
  of the last element the assignment moves the element onto itself, and the pop removes it.
\<close>

fun erase_loop :: "int list \<Rightarrow> STween \<Rightarrow> STween" where
  "erase_loop [] s = s"
| "erase_loop (it # its) s =
     erase_loop its
       \<lparr>m_lastTweenIndex = m_lastTweenIndex s - 1,
        m_tweenVec = butlast ((m_tweenVec s)[nat it := last (m_tweenVec s)])\<rparr>"

definition Update :: "nat \<Rightarrow> real \<Rightarrow> world \<Rightarrow> error + world" where
  "Update this deltaTime w =
     (let s = objs w this;
          l = \<lparr>tweensToAdd = [], tweensToDelete = [], counter = 0\<rparr>
      in case Update_loop deltaTime (m_tweenVec s) [] l w of
           Inl e \<Rightarrow> Inl e
         | Inr (vec, l, w) \<Rightarrow>
            (let s = erase_loop (rev (tweensToDelete l)) (s\<lparr>m_tweenVec := vec\<rparr>);
                 w = put this s w
             in Inr (fold (AddTween this) (tweensToAdd l) w)))"

subsection \<open>The revision of \<^verbatim>\<open>src/unnamed/part_000\<close>\<close>

text \<open>
  The second header of the repository holds an earlier revision of the class. Its
  \<^verbatim>\<open>TweenData\<close> has the same fields (\<^verbatim>\<open>byPointer\<close> is named \<^verbatim>\<open>byReference\<close> there and is never
  read), and its builder functions, \<^verbatim>\<open>GetTweens\<close>, \<^verbatim>\<open>AddTween\<close>, \<^verbatim>\<open>AddTweens\<close> and
  \<^verbatim>\<open>ReleaseTweens\<close> are, statement for statement, those modelled above. It has one \<^verbatim>\<open>From\<close>,
  by pointer, which compiles; it has no \<^verbatim>\<open>From\<close> by value. Its \<^verbatim>\<open>Update\<close> differs: it writes
  through the pointer without a test, does not assign \<^verbatim>\<open>tweenID\<close>, collects copies of the
  completed records instead of indices, and removes a record by \<^verbatim>\<open>std::find\<close> with
  \<^verbatim>\<open>operator==\<close>.

  \<^verbatim>\<open>From(T* initVal)\<close>, lines 186 to 203. The constructor of this revision leaves
  \<^verbatim>\<open>initialValue\<close> as it finds it, and \<^verbatim>\<open>From\<close> assigns it before it is read. Reading
  \<^verbatim>\<open>*initVal\<close> through a null pointer is the error \<open>NullDeref\<close>.
\<close>

definition From_part_000 :: "nat \<Rightarrow> ptr \<Rightarrow> TweenData \<Rightarrow> world \<Rightarrow> error + world" where
  "From_part_000 this initVal raw w =
     (let s = objs w this;
          tween = TweenData_ctor (m_lastTweenIndex s) raw;
          tween = set_fromReady True tween;
          tween = set_byPointer True tween;
          tween = set_initialValue initVal tween
      in case initVal of
           None \<Rightarrow> Inl NullDeref
         | Some a \<Rightarrow>
            (let tween = set_initialCpy (heap w a) tween;
                 tween = set_duration 0 tween;
                 tween = set_timeCounter 0 tween;
                 tween = set_endTween [] tween;
                 s = push_back tween s;
                 s = s\<lparr>m_lastTweenIndex := m_lastTweenIndex s + 1\<rparr>
             in Inr (put this s w)))"

text \<open>
  \<^verbatim>\<open>operator==\<close> compares two values of type \<^verbatim>\<open>T\<close> with \<^verbatim>\<open>==\<close>. On finite numbers this is
  equality; a NaN is unequal to everything, and \<open>NonFin\<close> is compared that way.
\<close>

fun flt_eq :: "flt \<Rightarrow> flt \<Rightarrow> bool" where
  "flt_eq (Fin a) (Fin b) \<longleftrightarrow> a = b"
| "flt_eq NonFin b \<longleftrightarrow> False"
| "flt_eq a NonFin \<longleftrightarrow> False"

definition TweenData_eq :: "TweenData \<Rightarrow> TweenData \<Rightarrow> bool" where
  "TweenData_eq this td \<longleftrightarrow>
     tweenID this = tweenID td \<and> initialValue this = initialValue td
     \<and> flt_eq (finalValue this) (finalValue td)
     \<and> timeCounter this = timeCounter td \<and> reversed this = reversed td
     \<and> easing this = easing td"

record locals_part_000 =
  tweensToAdd_part_000 :: "TweenData list"
  tweensToDelete_part_000 :: "TweenData list"

definition Update_body_part_000 ::
  "real \<Rightarrow> TweenData \<Rightarrow> locals_part_000 \<Rightarrow> world
     \<Rightarrow> error + (TweenData \<times> locals_part_000 \<times> world)" where
  "Update_body_part_000 deltaTime tween l w =
     (if fromReady tween then
        (let val = tween_value tween in
         case assign (initialValue tween) val w of
           Inl e \<Rightarrow> Inl e
         | Inr w \<Rightarrow>
            (let w = call_step (stepCallback tween) val w
             in if timeCounter tween \<ge> duration tween then
                  (case (if reversed tween
                         then assign (initialValue tween) (initialCpy tween) w
                         else assign (initialValue tween) (finalValue tween) w) of
                     Inl e \<Rightarrow> Inl e
                   | Inr w \<Rightarrow>
                      (let tween = set_fromReady False tween;
                           w = call_finish (finishCallback tween) w;
                           l = l\<lparr>tweensToAdd_part_000 :=
                                   tweensToAdd_part_000 l @ endTween tween\<rparr>;
                           l = l\<lparr>tweensToDelete_part_000 :=
                                   tweensToDelete_part_000 l @ [tween]\<rparr>;
                           tween = set_timeCounter (timeCounter tween + deltaTime) tween
                       in Inr (tween, l, w)))
                else
                  (let tween = set_timeCounter (timeCounter tween + deltaTime) tween
                   in Inr (tween, l, w))))
      else Inr (tween, l, w))"

fun Update_loop_part_000 ::
  "real \<Rightarrow> TweenData list \<Rightarrow> TweenData list \<Rightarrow> locals_part_000 \<Rightarrow> world
     \<Rightarrow> error + (TweenData list \<times> locals_part_000 \<times> world)" where
  "Update_loop_part_000 deltaTime [] seen l w = Inr (seen, l, w)"
| "Update_loop_part_000 deltaTime (tween # rest) seen l w =
     (case Update_body_part_000 deltaTime tween l w of
        Inl e \<Rightarrow> Inl e
      | Inr (tween', l', w') \<Rightarrow> Update_loop_part_000 deltaTime rest (seen @ [tween']) l' w')"

text \<open>
  \<^verbatim>\<open>std::find\<close> followed by \<^verbatim>\<open>erase\<close>: the vector without its first element equal to
  \<open>oldTween\<close>, or \<open>None\<close> when \<^verbatim>\<open>find\<close> returns \<^verbatim>\<open>end()\<close>.
\<close>

fun find_erase :: "TweenData \<Rightarrow> TweenData list \<Rightarrow> TweenData list option" where
  "find_erase oldTween [] = None"
| "find_erase oldTween (x # xs) =
     (if TweenData_eq x oldTween then Some xs
      else (case find_erase oldTween xs of None \<Rightarrow> None | Some ys \<Rightarrow> Some (x # ys)))"

fun erase_loop_part_000 :: "TweenData list \<Rightarrow> STween \<Rightarrow> STween" where
  "erase_loop_part_000 [] s = s"
| "erase_loop_part_000 (oldTween # olds) s =
     erase_loop_part_000 olds
       (case find_erase oldTween (m_tweenVec s) of
          None \<Rightarrow> s
        | Some vec \<Rightarrow> \<lparr>m_lastTweenIndex = m_lastTweenIndex s - 1, m_tweenVec = vec\<rparr>)"

definition Update_part_000 :: "nat \<Rightarrow> real \<Rightarrow> world \<Rightarrow> error + world" where
  "Update_part_000 this deltaTime w =
     (let s = objs w this;
          l = \<lparr>tweensToAdd_part_000 = [], tweensToDelete_part_000 = []\<rparr>
      in case Update_loop_part_000 deltaTime (m_tweenVec s) [] l w of
           Inl e \<Rightarrow> Inl e
         | Inr (vec, l, w) \<Rightarrow>
            (let s = erase_loop_part_000 (tweensToDelete_part_000 l) (s\<lparr>m_tweenVec := vec\<rparr>);
                 w = put this s w
             in Inr (fold (AddTween this) (tweensToAdd_part_000 l) w)))"

subsection \<open>Programs\<close>

text \<open>
  A call of a member function on an object, and a sequence of calls on one object. A
  program is run on one of the two revisions: \<open>exec\<close> and \<open>run\<close> are \<^verbatim>\<open>src/STween.h\<close>, where
  \<^verbatim>\<open>From\<close> by pointer does not compile; \<open>exec_part_000\<close> and \<open>run_part_000\<close> are the revision
  of \<^verbatim>\<open>part_000\<close>, which has no \<^verbatim>\<open>From\<close> by value.
\<close>

datatype call =
    Call_From_ptr ptr TweenData
  | Call_From_val flt TweenData
  | Call_To flt
  | Call_Time real
  | Call_OnFinish callback
  | Call_OnStep callback
  | Call_Chain "nat option"
  | Call_Reversed bool
  | Call_Easing int
  | Call_ReleaseTweens
  | Call_AddTweens "TweenData list"
  | Call_AddTween TweenData
  | Call_Update real

fun exec :: "nat \<Rightarrow> call \<Rightarrow> world \<Rightarrow> error + world" where
  "exec this (Call_From_ptr initVal raw) w = Inl IllFormed"
| "exec this (Call_From_val initVal raw) w = Inr (From_val this initVal raw w)"
| "exec this (Call_To finalVal) w = To this finalVal w"
| "exec this (Call_Time sec) w = Time this sec w"
| "exec this (Call_OnFinish f) w = OnFinish this f w"
| "exec this (Call_OnStep f) w = OnStep this f w"
| "exec this (Call_Chain chain) w = Chain this chain w"
| "exec this (Call_Reversed b) w = Reversed this b w"
| "exec this (Call_Easing e) w = Easing this e w"
| "exec this Call_ReleaseTweens w = Inr (ReleaseTweens this w)"
| "exec this (Call_AddTweens tweens) w = Inr (AddTweens this tweens w)"
| "exec this (Call_AddTween tween) w = Inr (AddTween this tween w)"
| "exec this (Call_Update deltaTime) w = Update this deltaTime w"

fun run :: "nat \<Rightarrow> call list \<Rightarrow> world \<Rightarrow> error + world" where
  "run this [] w = Inr w"
| "run this (c # cs) w = (case exec this c w of Inl e \<Rightarrow> Inl e | Inr w' \<Rightarrow> run this cs w')"

text \<open>A sequence of calls on several objects: each call names the object it is made on.\<close>

fun run_all :: "(nat \<times> call) list \<Rightarrow> world \<Rightarrow> error + world" where
  "run_all [] w = Inr w"
| "run_all ((this, c) # cs) w =
     (case exec this c w of Inl e \<Rightarrow> Inl e | Inr w' \<Rightarrow> run_all cs w')"

fun exec_part_000 :: "nat \<Rightarrow> call \<Rightarrow> world \<Rightarrow> error + world" where
  "exec_part_000 this (Call_From_ptr initVal raw) w = From_part_000 this initVal raw w"
| "exec_part_000 this (Call_From_val initVal raw) w = Inl IllFormed"
| "exec_part_000 this (Call_To finalVal) w = To this finalVal w"
| "exec_part_000 this (Call_Time sec) w = Time this sec w"
| "exec_part_000 this (Call_OnFinish f) w = OnFinish this f w"
| "exec_part_000 this (Call_OnStep f) w = OnStep this f w"
| "exec_part_000 this (Call_Chain chain) w = Chain this chain w"
| "exec_part_000 this (Call_Reversed b) w = Reversed this b w"
| "exec_part_000 this (Call_Easing e) w = Easing this e w"
| "exec_part_000 this Call_ReleaseTweens w = Inr (ReleaseTweens this w)"
| "exec_part_000 this (Call_AddTweens tweens) w = Inr (AddTweens this tweens w)"
| "exec_part_000 this (Call_AddTween tween) w = Inr (AddTween this tween w)"
| "exec_part_000 this (Call_Update deltaTime) w = Update_part_000 this deltaTime w"

fun run_part_000 :: "nat \<Rightarrow> call list \<Rightarrow> world \<Rightarrow> error + world" where
  "run_part_000 this [] w = Inr w"
| "run_part_000 this (c # cs) w =
     (case exec_part_000 this c w of Inl e \<Rightarrow> Inl e | Inr w' \<Rightarrow> run_part_000 this cs w')"

subsection \<open>Observing a run\<close>

text \<open>
  A world in which every object is freshly constructed and nothing has been logged, the
  content of a storage cell, the records of an object and the log after a run.
\<close>

definition fresh :: "mem \<Rightarrow> world" where
  "fresh m = \<lparr>objs = (\<lambda>_. STween_ctor), heap = m, trace = []\<rparr>"

definition observe ::
  "nat \<Rightarrow> addr \<Rightarrow> error + world \<Rightarrow> error + (flt \<times> TweenData list \<times> event list)" where
  "observe this x r = map_sum id (\<lambda>w. (heap w x, GetTweens this w, trace w)) r"

text \<open>The same, with the active records only.\<close>

definition observe_active ::
  "nat \<Rightarrow> addr \<Rightarrow> error + world \<Rightarrow> error + (flt \<times> TweenData list \<times> event list)" where
  "observe_active this x r =
     map_sum id (\<lambda>w. (heap w x, filter fromReady (GetTweens this w), trace w)) r"

text \<open>Concrete storage and indeterminate content for closed examples.\<close>

definition zeroes :: mem where
  "zeroes = (\<lambda>_. Fin 0)"

definition blank :: TweenData where
  "blank = TweenData 0 False False False None (Fin 0) (Fin 0) 0 0 0 None None []"

text \<open>
  The two programs of the specification's scenarios, up to the first call of
  \<^verbatim>\<open>Update\<close>. The first also registers a finish callback, so that its firing shows in
  the log; it starts with \<^verbatim>\<open>From\<close> by pointer and compiles on the revision of \<^verbatim>\<open>part_000\<close>
  only. The second starts with \<^verbatim>\<open>From\<close> by value and compiles on \<^verbatim>\<open>src/STween.h\<close> only.
  \<open>pointer_record\<close> is the record the first program has built when \<^verbatim>\<open>Update\<close> is first
  called, with the identifier \<^verbatim>\<open>AddTween\<close> gives it on a fresh object: on
  \<^verbatim>\<open>src/STween.h\<close> it is added with \<^verbatim>\<open>AddTween\<close>.
\<close>

definition pointer_record :: "addr \<Rightarrow> nat \<Rightarrow> TweenData" where
  "pointer_record x f =
     TweenData (- 1) True True False (Some x) (Fin 0) (Fin 10) 1 0 0 (Some f) None []"

definition pointer_setup :: "addr \<Rightarrow> TweenData \<Rightarrow> nat \<Rightarrow> call list" where
  "pointer_setup x raw f =
     [Call_From_ptr (Some x) raw, Call_To (Fin 10), Call_Time 1, Call_Easing 0,
      Call_OnFinish (Some f)]"

definition value_setup :: "TweenData \<Rightarrow> nat \<Rightarrow> call list" where
  "value_setup raw cb =
     [Call_From_val (Fin 0) raw, Call_To (Fin 1), Call_Time 1, Call_OnStep (Some cb)]"

subsection \<open>Notions used in the statements\<close>

text \<open>
  The value of line 339, \<^verbatim>\<open>tween.reversed ? tween.initialCpy : tween.finalValue\<close>; the
  events of the two callbacks when they are set; the records for which the first loop takes
  the completion branch.
\<close>

definition boundary :: "TweenData \<Rightarrow> flt" where
  "boundary tween = (if reversed tween then initialCpy tween else finalValue tween)"

definition step_events :: "TweenData \<Rightarrow> event list" where
  "step_events tween =
     (case stepCallback tween of None \<Rightarrow> [] | Some c \<Rightarrow> [Step c (tween_value tween)])"

definition finish_events :: "TweenData \<Rightarrow> event list" where
  "finish_events tween = (case finishCallback tween of None \<Rightarrow> [] | Some c \<Rightarrow> [Finish c])"

definition completes :: "TweenData \<Rightarrow> bool" where
  "completes tween \<longleftrightarrow> fromReady tween \<and> duration tween \<le> timeCounter tween"

text \<open>\<^verbatim>\<open>m_lastTweenIndex\<close> is the index of the last element, \<open>- 1\<close> for the empty vector.\<close>

definition index_ok :: "STween \<Rightarrow> bool" where
  "index_ok s \<longleftrightarrow> m_lastTweenIndex s = int (length (m_tweenVec s)) - 1"

text \<open>
  A world with two objects for closed examples: object \<open>0\<close> holds the record \<open>rec_a\<close> and
  object \<open>1\<close> the record \<open>rec_b\<close>, each as \<^verbatim>\<open>From\<close> by value leaves it on a fresh object
  (\<open>rec_b\<close> after \<^verbatim>\<open>To(6)\<close> and \<^verbatim>\<open>Time(2)\<close>).
\<close>

definition rec_a :: TweenData where
  "rec_a = TweenData (- 1) True False False None (Fin 0) (Fin 0) 0 0 0 None None []"

definition rec_b :: TweenData where
  "rec_b = TweenData (- 1) True False False None (Fin 5) (Fin 6) 2 0 0 None None []"

definition two_objects :: world where
  "two_objects =
     put 0 \<lparr>m_lastTweenIndex = 0, m_tweenVec = [rec_a]\<rparr>
       (put 1 \<lparr>m_lastTweenIndex = 0, m_tweenVec = [rec_b]\<rparr> (fresh zeroes))"

subsection \<open>Two records that differ by reversal\<close>

text \<open>
  The record with the bounds exchanged and the direction reversed, and the relations used
  to compare two runs: records equal or so exchanged, objects with equal index and
  related records, worlds with equal storage, equal log and related objects.
\<close>

definition flipped :: "TweenData \<Rightarrow> TweenData" where
  "flipped t = TweenData (tweenID t) (fromReady t) (byPointer t) (\<not> reversed t)
     (initialValue t) (finalValue t) (initialCpy t) (duration t) (easing t) (timeCounter t)
     (finishCallback t) (stepCallback t) (endTween t)"

definition twin :: "TweenData \<Rightarrow> TweenData \<Rightarrow> bool" where
  "twin a b \<longleftrightarrow> b = a \<or> b = flipped a"

definition alike :: "STween \<Rightarrow> STween \<Rightarrow> bool" where
  "alike s s' \<longleftrightarrow>
     m_lastTweenIndex s = m_lastTweenIndex s' \<and> list_all2 twin (m_tweenVec s) (m_tweenVec s')"

definition same_outputs :: "world \<Rightarrow> world \<Rightarrow> bool" where
  "same_outputs w w' \<longleftrightarrow>
     heap w = heap w' \<and> trace w = trace w' \<and> (\<forall>obj. alike (objs w obj) (objs w' obj))"

text \<open>The results of the first loop on two related vectors.\<close>

definition loop_rel ::
  "error + (TweenData list \<times> locals \<times> world) \<Rightarrow> error + (TweenData list \<times> locals \<times> world)
     \<Rightarrow> bool" where
  "loop_rel r r' \<longleftrightarrow>
     (case r of
        Inl e \<Rightarrow> r' = Inl e
      | Inr (v, l, w) \<Rightarrow>
         (case r' of
            Inl e \<Rightarrow> False
          | Inr (v', l', w') \<Rightarrow> list_all2 twin v v' \<and> l = l' \<and> same_outputs w w'))"

text \<open>
  What one call of \<^verbatim>\<open>Update\<close> of \<^verbatim>\<open>src/STween.h\<close> logs for one record, in order: for an
  active record the write of the eased value (by-pointer mode), the step callback, and,
  when \<^verbatim>\<open>timeCounter >= duration\<close> at the start of the call, the write of the boundary
  value (by-pointer mode) and the finish callback; nothing for a left-over.
\<close>

definition pointer_write :: "TweenData \<Rightarrow> flt \<Rightarrow> event list" where
  "pointer_write tween v =
     (if byPointer tween
      then (case initialValue tween of None \<Rightarrow> [] | Some a \<Rightarrow> [Write a v])
      else [])"

definition tick_events :: "TweenData \<Rightarrow> event list" where
  "tick_events tween =
     (if fromReady tween
      then pointer_write tween (tween_value tween) @ step_events tween
             @ (if duration tween \<le> timeCounter tween
                then pointer_write tween (boundary tween) @ finish_events tween
                else [])
      else [])"

text \<open>
  The indices of the elements of a vector whose \<^verbatim>\<open>fromReady\<close> is false, in increasing order.
\<close>

definition flagged :: "TweenData list \<Rightarrow> int list" where
  "flagged v = map int (filter (\<lambda>k. \<not> fromReady (v ! k)) [0..<length v])"

section \<open>Properties\<close>

subsection \<open>Reading a field after an assignment\<close>

lemma sel_set_tweenID [simp]:
  "tweenID (set_tweenID v t) = v"
  "fromReady (set_tweenID v t) = fromReady t"
  "byPointer (set_tweenID v t) = byPointer t"
  "reversed (set_tweenID v t) = reversed t"
  "initialValue (set_tweenID v t) = initialValue t"
  "initialCpy (set_tweenID v t) = initialCpy t"
  "finalValue (set_tweenID v t) = finalValue t"
  "duration (set_tweenID v t) = duration t"
  "easing (set_tweenID v t) = easing t"
  "timeCounter (set_tweenID v t) = timeCounter t"
  "finishCallback (set_tweenID v t) = finishCallback t"
  "stepCallback (set_tweenID v t) = stepCallback t"
  "endTween (set_tweenID v t) = endTween t"
  by (simp_all add: set_tweenID_def)

lemma sel_set_fromReady [simp]:
  "tweenID (set_fromReady v t) = tweenID t"
  "fromReady (set_fromReady v t) = v"
  "byPointer (set_fromReady v t) = byPointer t"
  "reversed (set_fromReady v t) = reversed t"
  "initialValue (set_fromReady v t) = initialValue t"
  "initialCpy (set_fromReady v t) = initialCpy t"
  "finalValue (set_fromReady v t) = finalValue t"
  "duration (set_fromReady v t) = duration t"
  "easing (set_fromReady v t) = easing t"
  "timeCounter (set_fromReady v t) = timeCounter t"
  "finishCallback (set_fromReady v t) = finishCallback t"
  "stepCallback (set_fromReady v t) = stepCallback t"
  "endTween (set_fromReady v t) = endTween t"
  by (simp_all add: set_fromReady_def)

lemma sel_set_byPointer [simp]:
  "tweenID (set_byPointer v t) = tweenID t"
  "fromReady (set_byPointer v t) = fromReady t"
  "byPointer (set_byPointer v t) = v"
  "reversed (set_byPointer v t) = reversed t"
  "initialValue (set_byPointer v t) = initialValue t"
  "initialCpy (set_byPointer v t) = initialCpy t"
  "finalValue (set_byPointer v t) = finalValue t"
  "duration (set_byPointer v t) = duration t"
  "easing (set_byPointer v t) = easing t"
  "timeCounter (set_byPointer v t) = timeCounter t"
  "finishCallback (set_byPointer v t) = finishCallback t"
  "stepCallback (set_byPointer v t) = stepCallback t"
  "endTween (set_byPointer v t) = endTween t"
  by (simp_all add: set_byPointer_def)

lemma sel_set_reversed [simp]:
  "tweenID (set_reversed v t) = tweenID t"
  "fromReady (set_reversed v t) = fromReady t"
  "byPointer (set_reversed v t) = byPointer t"
  "reversed (set_reversed v t) = v"
  "initialValue (set_reversed v t) = initialValue t"
  "initialCpy (set_reversed v t) = initialCpy t"
  "finalValue (set_reversed v t) = finalValue t"
  "duration (set_reversed v t) = duration t"
  "easing (set_reversed v t) = easing t"
  "timeCounter (set_reversed v t) = timeCounter t"
  "finishCallback (set_reversed v t) = finishCallback t"
  "stepCallback (set_reversed v t) = stepCallback t"
  "endTween (set_reversed v t) = endTween t"
  by (simp_all add: set_reversed_def)

lemma sel_set_initialValue [simp]:
  "tweenID (set_initialValue v t) = tweenID t"
  "fromReady (set_initialValue v t) = fromReady t"
  "byPointer (set_initialValue v t) = byPointer t"
  "reversed (set_initialValue v t) = reversed t"
  "initialValue (set_initialValue v t) = v"
  "initialCpy (set_initialValue v t) = initialCpy t"
  "finalValue (set_initialValue v t) = finalValue t"
  "duration (set_initialValue v t) = duration t"
  "easing (set_initialValue v t) = easing t"
  "timeCounter (set_initialValue v t) = timeCounter t"
  "finishCallback (set_initialValue v t) = finishCallback t"
  "stepCallback (set_initialValue v t) = stepCallback t"
  "endTween (set_initialValue v t) = endTween t"
  by (simp_all add: set_initialValue_def)

lemma sel_set_initialCpy [simp]:
  "tweenID (set_initialCpy v t) = tweenID t"
  "fromReady (set_initialCpy v t) = fromReady t"
  "byPointer (set_initialCpy v t) = byPointer t"
  "reversed (set_initialCpy v t) = reversed t"
  "initialValue (set_initialCpy v t) = initialValue t"
  "initialCpy (set_initialCpy v t) = v"
  "finalValue (set_initialCpy v t) = finalValue t"
  "duration (set_initialCpy v t) = duration t"
  "easing (set_initialCpy v t) = easing t"
  "timeCounter (set_initialCpy v t) = timeCounter t"
  "finishCallback (set_initialCpy v t) = finishCallback t"
  "stepCallback (set_initialCpy v t) = stepCallback t"
  "endTween (set_initialCpy v t) = endTween t"
  by (simp_all add: set_initialCpy_def)

lemma sel_set_finalValue [simp]:
  "tweenID (set_finalValue v t) = tweenID t"
  "fromReady (set_finalValue v t) = fromReady t"
  "byPointer (set_finalValue v t) = byPointer t"
  "reversed (set_finalValue v t) = reversed t"
  "initialValue (set_finalValue v t) = initialValue t"
  "initialCpy (set_finalValue v t) = initialCpy t"
  "finalValue (set_finalValue v t) = v"
  "duration (set_finalValue v t) = duration t"
  "easing (set_finalValue v t) = easing t"
  "timeCounter (set_finalValue v t) = timeCounter t"
  "finishCallback (set_finalValue v t) = finishCallback t"
  "stepCallback (set_finalValue v t) = stepCallback t"
  "endTween (set_finalValue v t) = endTween t"
  by (simp_all add: set_finalValue_def)

lemma sel_set_duration [simp]:
  "tweenID (set_duration v t) = tweenID t"
  "fromReady (set_duration v t) = fromReady t"
  "byPointer (set_duration v t) = byPointer t"
  "reversed (set_duration v t) = reversed t"
  "initialValue (set_duration v t) = initialValue t"
  "initialCpy (set_duration v t) = initialCpy t"
  "finalValue (set_duration v t) = finalValue t"
  "duration (set_duration v t) = v"
  "easing (set_duration v t) = easing t"
  "timeCounter (set_duration v t) = timeCounter t"
  "finishCallback (set_duration v t) = finishCallback t"
  "stepCallback (set_duration v t) = stepCallback t"
  "endTween (set_duration v t) = endTween t"
  by (simp_all add: set_duration_def)

lemma sel_set_easing [simp]:
  "tweenID (set_easing v t) = tweenID t"
  "fromReady (set_easing v t) = fromReady t"
  "byPointer (set_easing v t) = byPointer t"
  "reversed (set_easing v t) = reversed t"
  "initialValue (set_easing v t) = initialValue t"
  "initialCpy (set_easing v t) = initialCpy t"
  "finalValue (set_easing v t) = finalValue t"
  "duration (set_easing v t) = duration t"
  "easing (set_easing v t) = v"
  "timeCounter (set_easing v t) = timeCounter t"
  "finishCallback (set_easing v t) = finishCallback t"
  "stepCallback (set_easing v t) = stepCallback t"
  "endTween (set_easing v t) = endTween t"
  by (simp_all add: set_easing_def)

lemma sel_set_timeCounter [simp]:
  "tweenID (set_timeCounter v t) = tweenID t"
  "fromReady (set_timeCounter v t) = fromReady t"
  "byPointer (set_timeCounter v t) = byPointer t"
  "reversed (set_timeCounter v t) = reversed t"
  "initialValue (set_timeCounter v t) = initialValue t"
  "initialCpy (set_timeCounter v t) = initialCpy t"
  "finalValue (set_timeCounter v t) = finalValue t"
  "duration (set_timeCounter v t) = duration t"
  "easing (set_timeCounter v t) = easing t"
  "timeCounter (set_timeCounter v t) = v"
  "finishCallback (set_timeCounter v t) = finishCallback t"
  "stepCallback (set_timeCounter v t) = stepCallback t"
  "endTween (set_timeCounter v t) = endTween t"
  by (simp_all add: set_timeCounter_def)

lemma sel_set_finishCallback [simp]:
  "tweenID (set_finishCallback v t) = tweenID t"
  "fromReady (set_finishCallback v t) = fromReady t"
  "byPointer (set_finishCallback v t) = byPointer t"
  "reversed (set_finishCallback v t) = reversed t"
  "initialValue (set_finishCallback v t) = initialValue t"
  "initialCpy (set_finishCallback v t) = initialCpy t"
  "finalValue (set_finishCallback v t) = finalValue t"
  "duration (set_finishCallback v t) = duration t"
  "easing (set_finishCallback v t) = easing t"
  "timeCounter (set_finishCallback v t) = timeCounter t"
  "finishCallback (set_finishCallback v t) = v"
  "stepCallback (set_finishCallback v t) = stepCallback t"
  "endTween (set_finishCallback v t) = endTween t"
  by (simp_all add: set_finishCallback_def)

lemma sel_set_stepCallback [simp]:
  "tweenID (set_stepCallback v t) = tweenID t"
  "fromReady (set_stepCallback v t) = fromReady t"
  "byPointer (set_stepCallback v t) = byPointer t"
  "reversed (set_stepCallback v t) = reversed t"
  "initialValue (set_stepCallback v t) = initialValue t"
  "initialCpy (set_stepCallback v t) = initialCpy t"
  "finalValue (set_stepCallback v t) = finalValue t"
  "duration (set_stepCallback v t) = duration t"
  "easing (set_stepCallback v t) = easing t"
  "timeCounter (set_stepCallback v t) = timeCounter t"
  "finishCallback (set_stepCallback v t) = finishCallback t"
  "stepCallback (set_stepCallback v t) = v"
  "endTween (set_stepCallback v t) = endTween t"
  by (simp_all add: set_stepCallback_def)

lemma sel_set_endTween [simp]:
  "tweenID (set_endTween v t) = tweenID t"
  "fromReady (set_endTween v t) = fromReady t"
  "byPointer (set_endTween v t) = byPointer t"
  "reversed (set_endTween v t) = reversed t"
  "initialValue (set_endTween v t) = initialValue t"
  "initialCpy (set_endTween v t) = initialCpy t"
  "finalValue (set_endTween v t) = finalValue t"
  "duration (set_endTween v t) = duration t"
  "easing (set_endTween v t) = easing t"
  "timeCounter (set_endTween v t) = timeCounter t"
  "finishCallback (set_endTween v t) = finishCallback t"
  "stepCallback (set_endTween v t) = stepCallback t"
  "endTween (set_endTween v t) = v"
  by (simp_all add: set_endTween_def)

lemma sel_ctor [simp]:
  "tweenID (TweenData_ctor i raw) = i"
  "reversed (TweenData_ctor i raw) = False"
  "initialValue (TweenData_ctor i raw) = None"
  "easing (TweenData_ctor i raw) = 0"
  "finishCallback (TweenData_ctor i raw) = None"
  "stepCallback (TweenData_ctor i raw) = None"
  "endTween (TweenData_ctor i raw) = []"
  "finalValue (TweenData_ctor i raw) = finalValue raw"
  by (simp_all add: TweenData_ctor_def)

lemmas setters = set_tweenID_def set_fromReady_def set_reversed_def set_finalValue_def
  set_duration_def set_easing_def set_timeCounter_def set_finishCallback_def
  set_stepCallback_def set_endTween_def set_byPointer_def set_initialValue_def
  set_initialCpy_def

lemmas members = From_part_000_def From_val_def To_def Time_def OnFinish_def OnStep_def
  Reversed_def Easing_def GetTweens_def Chain_def AddTween_def AddTweens_def
  ReleaseTweens_def on_last_def at_last_def push_back_def put_def TweenData_ctor_def
  STween_ctor_def

lemmas ticking = Update_def Update_body_def tween_value_def assign_def call_step_def
  call_finish_def fdiv_def lift_def enumerator_def

lemmas ticking_part_000 = Update_part_000_def Update_body_part_000_def TweenData_eq_def
  tween_value_def assign_def call_step_def call_finish_def fdiv_def lift_def enumerator_def

subsection \<open>The switch\<close>

lemma enumerator_None: "enumerator i = None \<longleftrightarrow> i < 0 \<or> 12 < i"
  unfolding enumerator_def by (auto; arith)

text \<open>
  C9. A record whose \<^verbatim>\<open>easing\<close> field holds no enumerator (an integer below \<open>0\<close> or
  above \<open>12\<close>) takes the \<^verbatim>\<open>default\<close> branch: its value is the Linear formula at
  \<^verbatim>\<open>timeCounter / duration\<close> over the bounds in the order of travel, and everything
  \<^verbatim>\<open>Update\<close> does for it (writes, callbacks, locals) is what it does for the same record
  with \<^verbatim>\<open>easing = Linear\<close>.
\<close>

theorem unknown_easing_is_Linear:
  assumes "easing tween < 0 \<or> 12 < easing tween"
  shows "tween_value tween =
           lift Linear (fdiv (timeCounter tween) (duration tween))
             (if reversed tween then finalValue tween else initialCpy tween)
             (if reversed tween then initialCpy tween else finalValue tween)
       \<and> map_sum id snd (Update_body deltaTime tween l w) =
         map_sum id snd (Update_body deltaTime (set_easing 0 tween) l w)"
proof -
  from assms have n: "enumerator (easing tween) = None"
    by (simp add: enumerator_None)
  have v: "tween_value tween =
           lift Linear (fdiv (timeCounter tween) (duration tween))
             (if reversed tween then finalValue tween else initialCpy tween)
             (if reversed tween then initialCpy tween else finalValue tween)"
    by (simp add: tween_value_def n)
  have "tween_value (set_easing 0 tween) = tween_value tween"
    unfolding v by (simp add: tween_value_def enumerator_def)
  then have "map_sum id snd (Update_body deltaTime tween l w) =
         map_sum id snd (Update_body deltaTime (set_easing 0 tween) l w)"
    by (simp add: Update_body_def Let_def split: sum.splits)
  with v show ?thesis by simp
qed

theorem unknown_easing_is_Linear_witness:
  "((13::int) < 0 \<or> (12::int) < 13) \<and>
   tween_value (TweenData 0 True False False None (Fin 0) (Fin 10) 2 13 1 None None []) = Fin 5"
  using unknown_easing_is_Linear
    [of "TweenData 0 True False False None (Fin 0) (Fin 10) 2 13 1 None None []"]
  by (simp add: lift_def fdiv_def Linear_def)

subsection \<open>The easing formulas at both ends\<close>

text \<open>
  At position \<open>0\<close> every formula gives \<^verbatim>\<open>start\<close>. At position \<open>1\<close> every formula gives
  \<^verbatim>\<open>end\<close>, except \<^verbatim>\<open>QuadInOut\<close>, whose second branch multiplies by \<^verbatim>\<open>1\<close> where the first
  half of the curve would continue with \<^verbatim>\<open>-1\<close>, and gives \<^verbatim>\<open>2 * start - end\<close>.
\<close>

lemma easing_at_one:
  "Linear 1 s e = e" "QuadIn 1 s e = e" "QuadOut 1 s e = e"
  "CubicIn 1 s e = e" "CubicOut 1 s e = e" "CubicInOut 1 s e = e"
  "QuintIn 1 s e = e" "QuintOut 1 s e = e" "QuintInOut 1 s e = e"
  "BackIn 1 s e = e" "BackOut 1 s e = e" "BackInOut 1 s e = e"
  by (simp_all add: Linear_def QuadIn_def QuadOut_def CubicIn_def CubicOut_def CubicInOut_def
      QuintIn_def QuintOut_def QuintInOut_def BackIn_def BackOut_def BackInOut_def Let_def
      field_simps)

lemma QuadInOut_at_one: "QuadInOut 1 s e = 2 * s - e"
  by (simp add: QuadInOut_def Let_def field_simps)

lemma easing_at_zero:
  "Linear 0 s e = s" "QuadIn 0 s e = s" "QuadOut 0 s e = s" "QuadInOut 0 s e = s"
  "CubicIn 0 s e = s" "CubicOut 0 s e = s" "CubicInOut 0 s e = s"
  "QuintIn 0 s e = s" "QuintOut 0 s e = s" "QuintInOut 0 s e = s"
  "BackIn 0 s e = s" "BackOut 0 s e = s" "BackInOut 0 s e = s"
  by (simp_all add: Linear_def QuadIn_def QuadOut_def QuadInOut_def CubicIn_def CubicOut_def
      CubicInOut_def QuintIn_def QuintOut_def QuintInOut_def BackIn_def BackOut_def
      BackInOut_def Let_def field_simps)

subsection \<open>The two scenarios of the specification\<close>

text \<open>
  C2, as stated, fails: the value written by a call of \<^verbatim>\<open>Update\<close> is computed from
  \<^verbatim>\<open>timeCounter\<close> before \<^verbatim>\<open>deltaTime\<close> is added, so after the first \<^verbatim>\<open>Update(0.5)\<close> the
  storage holds \<open>0\<close>, not \<open>5\<close>. The program is run on the revision of \<^verbatim>\<open>part_000\<close>, the one
  on which it compiles.
\<close>

theorem by_pointer_scenario_counterexample:
  "observe 0 0
     (run_part_000 0 (pointer_setup 0 blank 0 @ [Call_Update (1 / 2)]) (fresh zeroes))
   = Inr (Fin 0,
          [TweenData (- 1) True True False (Some 0) (Fin 0) (Fin 10) 1 0 (1 / 2) (Some 0) None []],
          [Write 0 (Fin 0)])
   \<and> Fin 0 \<noteq> Fin 5"
  by (simp add: pointer_setup_def observe_def fresh_def zeroes_def blank_def
      setters members ticking_part_000 Linear_def Let_def)

text \<open>
  C2, amended. The program \<^verbatim>\<open>From(&x)\<close> with \<^verbatim>\<open>x = 0.0\<close>, \<^verbatim>\<open>To(10.0)\<close>, \<^verbatim>\<open>Time(1.0)\<close>,
  \<^verbatim>\<open>Easing(Linear)\<close>, with a finish callback, does not compile on \<^verbatim>\<open>src/STween.h\<close>. On the
  revision of \<^verbatim>\<open>part_000\<close>: after the first \<^verbatim>\<open>Update(0.5)\<close> the storage holds \<open>0\<close> and the
  record is active; after the second it holds \<open>5\<close> and the record is still active, with
  \<^verbatim>\<open>timeCounter = 1\<close>; after a third call, with any \<^verbatim>\<open>deltaTime\<close>, it holds \<open>10\<close>, no active
  record is left and the finish callback has fired once; a fourth call writes nothing and
  fires nothing. On \<^verbatim>\<open>src/STween.h\<close> the record that the program builds, added with
  \<^verbatim>\<open>AddTween\<close>, goes through the same values, and the third call removes it. All this holds
  on any object, for any storage cell, any other storage content and any indeterminate
  content of the new record. Whether the third call of the revision of \<^verbatim>\<open>part_000\<close> also
  removes the inactive record is left out here.
\<close>

theorem by_pointer_scenario:
  "run this (pointer_setup x raw f) w = Inl IllFormed
   \<and> observe_active this x
       (run_part_000 this (pointer_setup x raw f @ [Call_Update (1 / 2)])
          (fresh (m(x := Fin 0))))
     = Inr (Fin 0,
            [TweenData (- 1) True True False (Some x) (Fin 0) (Fin 10) 1 0 (1 / 2) (Some f) None
               []],
            [Write x (Fin 0)])
   \<and> observe_active this x
       (run_part_000 this (pointer_setup x raw f @ [Call_Update (1 / 2), Call_Update (1 / 2)])
          (fresh (m(x := Fin 0))))
     = Inr (Fin 5,
            [TweenData (- 1) True True False (Some x) (Fin 0) (Fin 10) 1 0 1 (Some f) None []],
            [Write x (Fin 0), Write x (Fin 5)])
   \<and> observe_active this x
       (run_part_000 this
          (pointer_setup x raw f @ [Call_Update (1 / 2), Call_Update (1 / 2), Call_Update dt])
          (fresh (m(x := Fin 0))))
     = Inr (Fin 10, [],
            [Write x (Fin 0), Write x (Fin 5), Write x (Fin 10), Write x (Fin 10), Finish f])
   \<and> observe_active this x
       (run_part_000 this
          (pointer_setup x raw f
             @ [Call_Update (1 / 2), Call_Update (1 / 2), Call_Update dt, Call_Update dt'])
          (fresh (m(x := Fin 0))))
     = Inr (Fin 10, [],
            [Write x (Fin 0), Write x (Fin 5), Write x (Fin 10), Write x (Fin 10), Finish f])
   \<and> observe this x
       (run this [Call_AddTween (pointer_record x f), Call_Update (1 / 2)]
          (fresh (m(x := Fin 0))))
     = Inr (Fin 0,
            [TweenData 0 True True False (Some x) (Fin 0) (Fin 10) 1 0 (1 / 2) (Some f) None []],
            [Write x (Fin 0)])
   \<and> observe this x
       (run this [Call_AddTween (pointer_record x f), Call_Update (1 / 2), Call_Update (1 / 2)]
          (fresh (m(x := Fin 0))))
     = Inr (Fin 5,
            [TweenData 0 True True False (Some x) (Fin 0) (Fin 10) 1 0 1 (Some f) None []],
            [Write x (Fin 0), Write x (Fin 5)])
   \<and> observe this x
       (run this
          [Call_AddTween (pointer_record x f), Call_Update (1 / 2), Call_Update (1 / 2),
           Call_Update dt]
          (fresh (m(x := Fin 0))))
     = Inr (Fin 10, [],
            [Write x (Fin 0), Write x (Fin 5), Write x (Fin 10), Write x (Fin 10), Finish f])
   \<and> observe this x
       (run this
          [Call_AddTween (pointer_record x f), Call_Update (1 / 2), Call_Update (1 / 2),
           Call_Update dt, Call_Update dt']
          (fresh (m(x := Fin 0))))
     = Inr (Fin 10, [],
            [Write x (Fin 0), Write x (Fin 5), Write x (Fin 10), Write x (Fin 10), Finish f])"
proof -
  have a: "run this (pointer_setup x raw f) w = Inl IllFormed"
    by (simp add: pointer_setup_def)
  have b: "observe_active this x
       (run_part_000 this (pointer_setup x raw f @ [Call_Update (1 / 2)])
          (fresh (m(x := Fin 0))))
     = Inr (Fin 0,
            [TweenData (- 1) True True False (Some x) (Fin 0) (Fin 10) 1 0 (1 / 2) (Some f) None
               []],
            [Write x (Fin 0)])"
    by (simp add: pointer_setup_def observe_active_def fresh_def setters members
        ticking_part_000 Linear_def Let_def)
  have c: "observe_active this x
       (run_part_000 this (pointer_setup x raw f @ [Call_Update (1 / 2), Call_Update (1 / 2)])
          (fresh (m(x := Fin 0))))
     = Inr (Fin 5,
            [TweenData (- 1) True True False (Some x) (Fin 0) (Fin 10) 1 0 1 (Some f) None []],
            [Write x (Fin 0), Write x (Fin 5)])"
    by (simp add: pointer_setup_def observe_active_def fresh_def setters members
        ticking_part_000 Linear_def Let_def)
  have d: "observe_active this x
       (run_part_000 this
          (pointer_setup x raw f @ [Call_Update (1 / 2), Call_Update (1 / 2), Call_Update dt])
          (fresh (m(x := Fin 0))))
     = Inr (Fin 10, [],
            [Write x (Fin 0), Write x (Fin 5), Write x (Fin 10), Write x (Fin 10), Finish f])"
    by (simp add: pointer_setup_def observe_active_def fresh_def setters members
        ticking_part_000 Linear_def Let_def)
  have e: "observe_active this x
       (run_part_000 this
          (pointer_setup x raw f
             @ [Call_Update (1 / 2), Call_Update (1 / 2), Call_Update dt, Call_Update dt'])
          (fresh (m(x := Fin 0))))
     = Inr (Fin 10, [],
            [Write x (Fin 0), Write x (Fin 5), Write x (Fin 10), Write x (Fin 10), Finish f])"
    by (simp add: pointer_setup_def observe_active_def fresh_def setters members
        ticking_part_000 Linear_def Let_def)
  have g: "observe this x
       (run this [Call_AddTween (pointer_record x f), Call_Update (1 / 2)]
          (fresh (m(x := Fin 0))))
     = Inr (Fin 0,
            [TweenData 0 True True False (Some x) (Fin 0) (Fin 10) 1 0 (1 / 2) (Some f) None []],
            [Write x (Fin 0)])"
    by (simp add: pointer_record_def observe_def fresh_def setters members ticking Linear_def
        Let_def)
  have h: "observe this x
       (run this [Call_AddTween (pointer_record x f), Call_Update (1 / 2), Call_Update (1 / 2)]
          (fresh (m(x := Fin 0))))
     = Inr (Fin 5,
            [TweenData 0 True True False (Some x) (Fin 0) (Fin 10) 1 0 1 (Some f) None []],
            [Write x (Fin 0), Write x (Fin 5)])"
    by (simp add: pointer_record_def observe_def fresh_def setters members ticking Linear_def
        Let_def)
  have i: "observe this x
       (run this
          [Call_AddTween (pointer_record x f), Call_Update (1 / 2), Call_Update (1 / 2),
           Call_Update dt]
          (fresh (m(x := Fin 0))))
     = Inr (Fin 10, [],
            [Write x (Fin 0), Write x (Fin 5), Write x (Fin 10), Write x (Fin 10), Finish f])"
    by (simp add: pointer_record_def observe_def fresh_def setters members ticking Linear_def
        Let_def)
  have j: "observe this x
       (run this
          [Call_AddTween (pointer_record x f), Call_Update (1 / 2), Call_Update (1 / 2),
           Call_Update dt, Call_Update dt']
          (fresh (m(x := Fin 0))))
     = Inr (Fin 10, [],
            [Write x (Fin 0), Write x (Fin 5), Write x (Fin 10), Write x (Fin 10), Finish f])"
    by (simp add: pointer_record_def observe_def fresh_def setters members ticking Linear_def
        Let_def)
  from a b c d e g h i j show ?thesis by (intro conjI)
qed

text \<open>
  C7, as stated, fails in its first half: \<^verbatim>\<open>Update(1.0)\<close> calls the step callback with
  \<open>0\<close>, the value at \<^verbatim>\<open>timeCounter = 0\<close>, and not with \<open>1\<close>.
\<close>

theorem by_value_scenario_counterexample:
  "observe 0 0 (run 0 (value_setup blank 0 @ [Call_Update 1]) (fresh zeroes))
   = Inr (Fin 0,
          [TweenData 0 True False False None (Fin 0) (Fin 1) 1 0 1 None (Some 0) []],
          [Step 0 (Fin 0)])
   \<and> Step 0 (Fin 0) \<noteq> Step 0 (Fin 1)"
  by (simp add: value_setup_def observe_def fresh_def zeroes_def blank_def
      setters members ticking Linear_def Let_def)

text \<open>
  C7, amended. For \<^verbatim>\<open>From(0.0)\<close> by value, \<^verbatim>\<open>To(1.0)\<close>, \<^verbatim>\<open>Time(1.0)\<close>, \<^verbatim>\<open>OnStep(cb)\<close>:
  \<^verbatim>\<open>Update(1.0)\<close> calls \<^verbatim>\<open>cb\<close> with \<open>0\<close>, and the next call of \<^verbatim>\<open>Update\<close> calls it with \<open>1\<close>
  and removes the record. Neither call fails on the null pointer of the record, and
  neither writes to storage: every cell keeps its content and the log holds no write.
\<close>

theorem by_value_scenario:
  "observe this x (run this (value_setup raw cb @ [Call_Update 1]) (fresh m))
   = Inr (m x,
          [TweenData 0 True False False None (Fin 0) (Fin 1) 1 0 1 None (Some cb) []],
          [Step cb (Fin 0)])
   \<and> observe this x (run this (value_setup raw cb @ [Call_Update 1, Call_Update dt]) (fresh m))
   = Inr (m x, [], [Step cb (Fin 0), Step cb (Fin 1)])"
  by (simp add: value_setup_def observe_def fresh_def setters members ticking Linear_def
      Let_def)

subsection \<open>The tick on which a record completes\<close>

lemma Update_body_completes:
  assumes "completes tween"
  shows "Update_body deltaTime tween l w =
           (case (if byPointer tween then assign (initialValue tween) (tween_value tween) w
                  else Inr w) of
              Inl e \<Rightarrow> Inl e
            | Inr w1 \<Rightarrow>
               (case (if byPointer tween
                      then assign (initialValue tween) (boundary tween)
                             (call_step (stepCallback tween) (tween_value tween) w1)
                      else Inr (call_step (stepCallback tween) (tween_value tween) w1)) of
                  Inl e \<Rightarrow> Inl e
                | Inr w2 \<Rightarrow>
                   Inr (set_timeCounter (timeCounter tween + deltaTime)
                          (set_fromReady False (set_tweenID (counter l) tween)),
                        l\<lparr>tweensToDelete := tweensToDelete l @ [counter l],
                          tweensToAdd := tweensToAdd l @ endTween tween,
                          counter := counter l + 1\<rparr>,
                        call_finish (finishCallback tween) w2)))"
  using assms
  by (simp add: Update_body_def completes_def boundary_def Let_def split: sum.splits)

lemma Update_body_continues:
  assumes "fromReady tween" and "\<not> duration tween \<le> timeCounter tween"
  shows "Update_body deltaTime tween l w =
           (case (if byPointer tween then assign (initialValue tween) (tween_value tween) w
                  else Inr w) of
              Inl e \<Rightarrow> Inl e
            | Inr w1 \<Rightarrow>
                Inr (set_timeCounter (timeCounter tween + deltaTime)
                       (set_tweenID (counter l) tween),
                     l\<lparr>counter := counter l + 1\<rparr>,
                     call_step (stepCallback tween) (tween_value tween) w1))"
  using assms by (simp add: Update_body_def Let_def split: sum.splits)

lemma Update_body_left_over:
  assumes "\<not> fromReady tween"
  shows "Update_body deltaTime tween l w =
           Inr (tween, l\<lparr>tweensToDelete := tweensToDelete l @ [counter l],
                          counter := counter l + 1\<rparr>, w)"
  using assms by (simp add: Update_body_def)

text \<open>
  C3, as stated, fails in its last part: the boundary value is never passed to the step
  callback. A by-pointer record from \<open>0\<close> to \<open>10\<close> over one second, ticked with
  \<^verbatim>\<open>Update(2)\<close> and \<^verbatim>\<open>Update(0)\<close>, completes on the second call; the callback receives \<open>0\<close>
  and then the eased value \<open>20\<close>, the storage receives the boundary value \<open>10\<close>, and the
  callback does not. The record is built with \<^verbatim>\<open>From(&x)\<close> on the revision of \<^verbatim>\<open>part_000\<close>
  and added with \<^verbatim>\<open>AddTween\<close> on \<^verbatim>\<open>src/STween.h\<close>.
\<close>

theorem snap_not_stepped_counterexample:
  "observe 0 0
     (run_part_000 0
        [Call_From_ptr (Some 0) blank, Call_To (Fin 10), Call_Time 1, Call_OnStep (Some 0),
         Call_Update 2, Call_Update 0] (fresh zeroes))
   = Inr (Fin 10, [],
          [Write 0 (Fin 0), Step 0 (Fin 0), Write 0 (Fin 20), Step 0 (Fin 20), Write 0 (Fin 10)])
   \<and> observe 0 0
     (run 0
        [Call_AddTween
           (TweenData 0 True True False (Some 0) (Fin 0) (Fin 10) 1 0 0 None (Some 0) []),
         Call_Update 2, Call_Update 0] (fresh zeroes))
   = Inr (Fin 10, [],
          [Write 0 (Fin 0), Step 0 (Fin 0), Write 0 (Fin 20), Step 0 (Fin 20), Write 0 (Fin 10)])
   \<and> Step 0 (Fin 10) \<notin>
       set [Write 0 (Fin 0), Step 0 (Fin 0), Write 0 (Fin 20), Step 0 (Fin 20), Write 0 (Fin 10)]"
  by (simp add: observe_def fresh_def zeroes_def blank_def
      setters members ticking ticking_part_000 Linear_def Let_def)

text \<open>
  C3, amended. On the call of \<^verbatim>\<open>Update\<close> that finds \<^verbatim>\<open>timeCounter >= duration\<close> for an active
  record (tested before \<^verbatim>\<open>deltaTime\<close> is added), the eased value of the tick is delivered as
  on any tick (written through the pointer in by-pointer mode, then passed to the step
  callback when one is set); after that the boundary value (\<^verbatim>\<open>finalValue\<close>, or \<^verbatim>\<open>initialCpy\<close>
  when reversed) is written through the pointer in by-pointer mode only, and the finish
  callback is called when one is set. The step callback is called once, with the eased
  value; a by-value record delivers the boundary value nowhere.
\<close>

theorem completion_tick:
  assumes "fromReady tween" and "duration tween \<le> timeCounter tween"
  shows "map_sum id (snd \<circ> snd) (Update_body deltaTime tween l w) =
           (if byPointer tween then
              (case initialValue tween of
                 None \<Rightarrow> Inl NullDeref
               | Some a \<Rightarrow>
                  Inr (w\<lparr>heap := (heap w)(a := boundary tween),
                         trace := trace w @ [Write a (tween_value tween)] @ step_events tween
                                    @ [Write a (boundary tween)] @ finish_events tween\<rparr>))
            else Inr (w\<lparr>trace := trace w @ step_events tween @ finish_events tween\<rparr>))"
proof -
  from assms have c: "completes tween" by (simp add: completes_def)
  show ?thesis
    unfolding Update_body_completes [OF c]
    by (simp add: assign_def call_step_def call_finish_def step_events_def finish_events_def
        split: option.splits)
qed

theorem completion_tick_witness:
  "fromReady (TweenData 0 True True False (Some 0) (Fin 0) (Fin 10) 1 0 2 (Some 1) (Some 0) [])
   \<and> duration (TweenData 0 True True False (Some 0) (Fin 0) (Fin 10) 1 0 2 (Some 1) (Some 0) [])
     \<le> timeCounter
         (TweenData 0 True True False (Some 0) (Fin 0) (Fin 10) 1 0 2 (Some 1) (Some 0) [])
   \<and> map_sum id (snd \<circ> snd)
       (Update_body 0
          (TweenData 0 True True False (Some 0) (Fin 0) (Fin 10) 1 0 2 (Some 1) (Some 0) [])
          \<lparr>tweensToAdd = [], tweensToDelete = [], counter = 0\<rparr> (fresh zeroes))
     = Inr (\<lparr>objs = (\<lambda>_. STween_ctor), heap = zeroes(0 := Fin 10),
             trace = [Write 0 (Fin 20), Step 0 (Fin 20), Write 0 (Fin 10), Finish 1]\<rparr>)"
  using completion_tick
    [of "TweenData 0 True True False (Some 0) (Fin 0) (Fin 10) 1 0 2 (Some 1) (Some 0) []"
      0 "\<lparr>tweensToAdd = [], tweensToDelete = [], counter = 0\<rparr>" "fresh zeroes"]
  by (simp add: fresh_def boundary_def step_events_def finish_events_def tween_value_def
      enumerator_def lift_def fdiv_def Linear_def)

text \<open>
  A by-value record never reaches a write through its pointer: whatever the pointer holds,
  the body succeeds, leaves the storage alone and logs only callbacks.
\<close>

lemma by_value_body:
  assumes "\<not> byPointer tween"
  shows "map_sum id (snd \<circ> snd) (Update_body deltaTime tween l w) =
           Inr (w\<lparr>trace := trace w
                  @ (if fromReady tween
                     then step_events tween
                            @ (if duration tween \<le> timeCounter tween
                               then finish_events tween else [])
                     else [])\<rparr>)"
proof (cases "fromReady tween")
  case False
  then show ?thesis by (simp add: Update_body_left_over)
next
  case True
  show ?thesis
  proof (cases "duration tween \<le> timeCounter tween")
    case c: True
    with True have "completes tween" by (simp add: completes_def)
    with assms True c show ?thesis
      by (simp add: Update_body_completes call_step_def call_finish_def step_events_def
          finish_events_def split: option.splits)
  next
    case False
    with assms True show ?thesis
      by (simp add: Update_body_continues call_step_def step_events_def split: option.splits)
  qed
qed

subsection \<open>The index of the last record\<close>

lemma Update_body_objs:
  "Update_body dt tween l w = Inr (tween', l', w') \<Longrightarrow> objs w' = objs w"
  by (auto simp: Update_body_def Let_def assign_def call_step_def call_finish_def
      split: if_splits sum.splits option.splits)

lemma Update_body_counts:
  "Update_body dt tween l w = Inr (tween', l', w') \<Longrightarrow>
     length (tweensToDelete l') \<le> Suc (length (tweensToDelete l))"
  by (auto simp: Update_body_def Let_def split: if_splits sum.splits)

lemma Update_loop_objs:
  "Update_loop dt ts seen l w = Inr (vec, l', w') \<Longrightarrow> objs w' = objs w"
proof (induction ts arbitrary: seen l w)
  case Nil
  then show ?case by simp
next
  case (Cons t ts)
  then show ?case
    by (auto split: sum.splits dest: Update_body_objs)
qed

lemma Update_loop_counts:
  "Update_loop dt ts seen l w = Inr (vec, l', w') \<Longrightarrow>
     length vec = length seen + length ts
     \<and> length (tweensToDelete l') \<le> length (tweensToDelete l) + length ts"
proof (induction ts arbitrary: seen l w)
  case Nil
  then show ?case by simp
next
  case (Cons t ts)
  from Cons.prems obtain t1 l1 w1 where
    b: "Update_body dt t l w = Inr (t1, l1, w1)"
    and r: "Update_loop dt ts (seen @ [t1]) l1 w1 = Inr (vec, l', w')"
    by (auto split: sum.splits)
  from Cons.IH [OF r] Update_body_counts [OF b] show ?case by simp
qed

lemma erase_loop_index_ok:
  "index_ok s \<Longrightarrow> length its \<le> length (m_tweenVec s) \<Longrightarrow> index_ok (erase_loop its s)"
proof (induction its arbitrary: s)
  case Nil
  then show ?case by simp
next
  case (Cons it its)
  then show ?case
    by (simp add: index_ok_def)
qed

lemma AddTween_objs:
  "objs (AddTween this tween w) =
     (objs w)(this := (objs w this)
        \<lparr>m_tweenVec := m_tweenVec (objs w this)
                        @ [set_tweenID (m_lastTweenIndex (objs w this)) tween],
         m_lastTweenIndex := m_lastTweenIndex (objs w this) + 1\<rparr>)"
  by (simp add: AddTween_def put_def push_back_def Let_def)

lemma AddTween_index_ok:
  "index_ok (objs w o') \<Longrightarrow> index_ok (objs (AddTween this tween w) o')"
  by (auto simp: AddTween_objs index_ok_def)

lemma fold_AddTween_index_ok:
  "index_ok (objs w o') \<Longrightarrow> index_ok (objs (fold (AddTween this) tweens w) o')"
  by (induction tweens arbitrary: w) (simp_all add: AddTween_index_ok)

lemma Update_index_ok:
  assumes "Update this dt w = Inr w'" and "index_ok (objs w o')"
  shows "index_ok (objs w' o')"
proof -
  from assms(1) obtain vec l1 w1 where
    lp: "Update_loop dt (m_tweenVec (objs w this)) []
           \<lparr>tweensToAdd = [], tweensToDelete = [], counter = 0\<rparr> w = Inr (vec, l1, w1)"
    and w': "w' = fold (AddTween this) (tweensToAdd l1)
               (put this (erase_loop (rev (tweensToDelete l1))
                  ((objs w this)\<lparr>m_tweenVec := vec\<rparr>)) w1)"
    by (auto simp: Update_def Let_def split: sum.splits)
  from Update_loop_counts [OF lp] have
    len: "length vec = length (m_tweenVec (objs w this))"
    and dl: "length (tweensToDelete l1) \<le> length vec" by simp_all
  have o: "objs w1 = objs w" by (rule Update_loop_objs [OF lp])
  have "index_ok (objs (put this (erase_loop (rev (tweensToDelete l1))
                  ((objs w this)\<lparr>m_tweenVec := vec\<rparr>)) w1) o')"
  proof (cases "o' = this")
    case True
    with assms(2) len have "index_ok ((objs w this)\<lparr>m_tweenVec := vec\<rparr>)"
      by (simp add: index_ok_def)
    then have "index_ok (erase_loop (rev (tweensToDelete l1)) ((objs w this)\<lparr>m_tweenVec := vec\<rparr>))"
      using dl by (intro erase_loop_index_ok) simp_all
    with True show ?thesis by (simp add: put_def)
  next
    case False
    with assms(2) o show ?thesis by (simp add: put_def)
  qed
  then show ?thesis unfolding w' by (rule fold_AddTween_index_ok)
qed

lemma at_last_index_ok:
  "at_last f s = Inr s' \<Longrightarrow> index_ok s \<Longrightarrow> index_ok s'"
  by (auto simp: at_last_def index_ok_def Let_def split: if_splits)

lemma on_last_index_ok:
  "on_last this f w = Inr w' \<Longrightarrow> index_ok (objs w o') \<Longrightarrow> index_ok (objs w' o')"
  by (auto simp: on_last_def put_def split: sum.splits dest: at_last_index_ok)

lemma exec_index_ok:
  assumes "exec this c w = Inr w'" and "index_ok (objs w o')"
  shows "index_ok (objs w' o')"
proof (cases c)
  case (Call_From_ptr p raw)
  with assms show ?thesis by simp
next
  case (Call_From_val v raw)
  with assms show ?thesis
    by (auto simp: From_val_def put_def push_back_def index_ok_def Let_def)
next
  case (Call_Chain ch)
  with assms show ?thesis
    by (auto simp: Chain_def split: option.splits dest: on_last_index_ok)
next
  case Call_ReleaseTweens
  with assms show ?thesis
    by (auto simp: ReleaseTweens_def put_def index_ok_def)
next
  case (Call_AddTweens tweens)
  with assms show ?thesis
    by (auto simp: AddTweens_def fold_AddTween_index_ok)
next
  case (Call_AddTween tween)
  with assms show ?thesis
    by (auto simp: AddTween_index_ok)
next
  case (Call_Update dt)
  with assms show ?thesis
    by (auto dest: Update_index_ok)
qed (use assms in \<open>auto simp: To_def Time_def OnFinish_def OnStep_def Reversed_def Easing_def
      dest: on_last_index_ok\<close>)

lemma run_index_ok:
  "run this cs w = Inr w' \<Longrightarrow> index_ok (objs w o') \<Longrightarrow> index_ok (objs w' o')"
proof (induction cs arbitrary: w)
  case Nil
  then show ?case by simp
next
  case (Cons c cs)
  then show ?case
    by (auto split: sum.splits dest: exec_index_ok)
qed

lemma update_last:
  "xs \<noteq> [] \<Longrightarrow> xs[length xs - 1 := f (xs ! (length xs - 1))] = butlast xs @ [f (last xs)]"
  by (cases xs rule: rev_cases) (simp_all add: nth_append)

lemma at_last_is_last:
  assumes "index_ok s" and "m_tweenVec s \<noteq> []"
  shows "at_last f s =
           Inr (s\<lparr>m_tweenVec := butlast (m_tweenVec s) @ [f (last (m_tweenVec s))]\<rparr>)"
proof -
  let ?v = "m_tweenVec s"
  from assms have i: "nat (m_lastTweenIndex s) = length ?v - 1" "0 \<le> m_lastTweenIndex s"
    "m_lastTweenIndex s < int (length ?v)"
    by (auto simp: index_ok_def)
  have "?v [length ?v - 1 := f (?v ! (length ?v - 1))] = butlast ?v @ [f (last ?v)]"
    using assms(2) by (rule update_last)
  with i show ?thesis by (simp add: at_last_def Let_def)
qed

lemma run_all_index_ok:
  "run_all cs w = Inr w' \<Longrightarrow> index_ok (objs w o') \<Longrightarrow> index_ok (objs w' o')"
proof (induction cs arbitrary: w)
  case Nil
  then show ?case by simp
next
  case (Cons c cs)
  obtain this c' where c: "c = (this, c')" by (cases c)
  from Cons show ?case unfolding c
    by (auto split: sum.splits dest: exec_index_ok)
qed

lemma From_val_vec:
  "GetTweens this (From_val this v raw w) =
     GetTweens this w
       @ [TweenData (m_lastTweenIndex (objs w this)) True False False None v (finalValue raw)
            0 0 0 None None []]"
  by (simp add: From_val_def GetTweens_def put_def push_back_def TweenData_ctor_def setters
      Let_def)

lemma AddTween_vec:
  "GetTweens this (AddTween this tween w) =
     GetTweens this w @ [set_tweenID (m_lastTweenIndex (objs w this)) tween]"
  by (simp add: AddTween_objs GetTweens_def)

lemma From_val_index_ok:
  "index_ok (objs w obj) \<Longrightarrow> index_ok (objs (From_val this v raw w) obj)"
  by (auto simp: From_val_def put_def push_back_def index_ok_def Let_def)

text \<open>
  C10, as stated, fails in its conclusion: the last element of the vector need not be the
  record appended most recently. \<^verbatim>\<open>From(1)\<close>, \<^verbatim>\<open>From(2).To(20).Time(5)\<close>,
  \<^verbatim>\<open>From(3).To(30).Time(5)\<close>, \<^verbatim>\<open>Update(1)\<close>: the first record has duration \<open>0\<close> and completes,
  the removal moves the last record (start \<open>3\<close>) into its slot, and the vector is
  \<open>[start 3, start 2]\<close> with \<^verbatim>\<open>m_lastTweenIndex = 1\<close>. \<^verbatim>\<open>To(99)\<close> then assigns to the record
  with start \<open>2\<close>; the record appended last keeps its \<^verbatim>\<open>finalValue\<close> \<open>30\<close>.
\<close>

theorem builder_after_removal_counterexample:
  "map_sum id (GetTweens 0)
     (run 0 [Call_From_val (Fin 1) blank,
             Call_From_val (Fin 2) blank, Call_To (Fin 20), Call_Time 5,
             Call_From_val (Fin 3) blank, Call_To (Fin 30), Call_Time 5,
             Call_Update 1, Call_To (Fin 99)] (fresh zeroes))
   = Inr [TweenData 2 True False False None (Fin 3) (Fin 30) 5 0 1 None None [],
          TweenData 1 True False False None (Fin 2) (Fin 99) 5 0 1 None None []]
   \<and> Fin 30 \<noteq> Fin 99"
  by (simp add: fresh_def zeroes_def blank_def setters members ticking Linear_def Let_def)

text \<open>
  C10, amended. In a world of freshly constructed objects, after any sequence of calls of
  public member functions on any of the objects (\<^verbatim>\<open>From\<close>, the builder functions,
  \<^verbatim>\<open>AddTween\<close>, \<^verbatim>\<open>AddTweens\<close>, \<^verbatim>\<open>Update\<close>, \<^verbatim>\<open>ReleaseTweens\<close>) that ran without an error, the
  \<^verbatim>\<open>m_lastTweenIndex\<close> of every object is its number of records minus one; so, when the
  object holds a record, the access \<^verbatim>\<open>m_tweenVec[m_lastTweenIndex]\<close> through which \<^verbatim>\<open>To\<close>,
  \<^verbatim>\<open>Time\<close>, \<^verbatim>\<open>OnFinish\<close>, \<^verbatim>\<open>OnStep\<close>, \<^verbatim>\<open>Chain\<close>, \<^verbatim>\<open>Reversed\<close> and \<^verbatim>\<open>Easing\<close> assign a
  field (\<open>at_last\<close> with the assignment \<open>f\<close>) changes the last element of the vector and no
  other. \<^verbatim>\<open>From\<close> and \<^verbatim>\<open>AddTween\<close> append at the end, so a builder function called next
  changes the record just appended. (After an \<^verbatim>\<open>Update\<close> that removed a record the last
  element can be an older record.)
\<close>

theorem last_index_invariant:
  assumes "run_all cs (fresh m) = Inr w"
  shows "m_lastTweenIndex (objs w this) = int (length (GetTweens this w)) - 1
       \<and> (GetTweens this w \<noteq> [] \<longrightarrow>
            at_last f (objs w this) =
              Inr ((objs w this)
                     \<lparr>m_tweenVec := butlast (GetTweens this w) @ [f (last (GetTweens this w))]\<rparr>))
       \<and> at_last f (objs (From_val this v raw w) this) =
            Inr ((objs (From_val this v raw w) this)
                   \<lparr>m_tweenVec := GetTweens this w
                      @ [f (TweenData (m_lastTweenIndex (objs w this)) True False False None v
                              (finalValue raw) 0 0 0 None None [])]\<rparr>)
       \<and> at_last f (objs (AddTween this tween w) this) =
            Inr ((objs (AddTween this tween w) this)
                   \<lparr>m_tweenVec := GetTweens this w
                      @ [f (set_tweenID (m_lastTweenIndex (objs w this)) tween)]\<rparr>)"
proof -
  have "index_ok (objs (fresh m) this)"
    by (simp add: fresh_def STween_ctor_def index_ok_def)
  with assms have ok: "index_ok (objs w this)"
    by (rule run_all_index_ok)
  have a: "m_lastTweenIndex (objs w this) = int (length (GetTweens this w)) - 1"
    using ok by (simp add: index_ok_def GetTweens_def)
  have b: "GetTweens this w \<noteq> [] \<longrightarrow>
            at_last f (objs w this) =
              Inr ((objs w this)
                     \<lparr>m_tweenVec := butlast (GetTweens this w) @ [f (last (GetTweens this w))]\<rparr>)"
    using ok by (simp add: GetTweens_def at_last_is_last)
  have c: "at_last f (objs (From_val this v raw w) this) =
            Inr ((objs (From_val this v raw w) this)
                   \<lparr>m_tweenVec := GetTweens this w
                      @ [f (TweenData (m_lastTweenIndex (objs w this)) True False False None v
                              (finalValue raw) 0 0 0 None None [])]\<rparr>)"
  proof -
    have "index_ok (objs (From_val this v raw w) this)"
      using ok by (rule From_val_index_ok)
    moreover have "m_tweenVec (objs (From_val this v raw w) this) \<noteq> []"
      using From_val_vec [of this v raw w] by (simp add: GetTweens_def)
    ultimately show ?thesis
      using From_val_vec [of this v raw w] by (simp add: at_last_is_last GetTweens_def)
  qed
  have d: "at_last f (objs (AddTween this tween w) this) =
            Inr ((objs (AddTween this tween w) this)
                   \<lparr>m_tweenVec := GetTweens this w
                      @ [f (set_tweenID (m_lastTweenIndex (objs w this)) tween)]\<rparr>)"
  proof -
    have "index_ok (objs (AddTween this tween w) this)"
      using ok by (rule AddTween_index_ok)
    moreover have "m_tweenVec (objs (AddTween this tween w) this) \<noteq> []"
      using AddTween_vec [of this tween w] by (simp add: GetTweens_def)
    ultimately show ?thesis
      using AddTween_vec [of this tween w] by (simp add: at_last_is_last GetTweens_def)
  qed
  from a b c d show ?thesis by (intro conjI)
qed

theorem last_index_invariant_witness:
  "run_all [(0, Call_From_val (Fin 1) blank), (0, Call_Time 5), (0, Call_Update 1)]
     (fresh zeroes)
   = Inr \<lparr>objs = (\<lambda>_. STween_ctor)
            (0 := \<lparr>m_lastTweenIndex = 0,
                   m_tweenVec =
                     [TweenData 0 True False False None (Fin 1) (Fin 0) 5 0 1 None None []]\<rparr>),
          heap = zeroes, trace = []\<rparr>
   \<and> m_lastTweenIndex
       (objs \<lparr>objs = (\<lambda>_. STween_ctor)
            (0 := \<lparr>m_lastTweenIndex = 0,
                   m_tweenVec =
                     [TweenData 0 True False False None (Fin 1) (Fin 0) 5 0 1 None None []]\<rparr>),
          heap = zeroes, trace = []\<rparr> 0) = 0
   \<and> at_last (set_finalValue (Fin 9))
       \<lparr>m_lastTweenIndex = 0,
         m_tweenVec =
           [TweenData 0 True False False None (Fin 1) (Fin 0) 5 0 1 None None []]\<rparr>
     = Inr \<lparr>m_lastTweenIndex = 0,
            m_tweenVec =
              [TweenData 0 True False False None (Fin 1) (Fin 9) 5 0 1 None None []]\<rparr>
   \<and> at_last (set_finalValue (Fin 9))
       (objs (From_val 0 (Fin 2) blank
          \<lparr>objs = (\<lambda>_. STween_ctor)
            (0 := \<lparr>m_lastTweenIndex = 0,
                   m_tweenVec =
                     [TweenData 0 True False False None (Fin 1) (Fin 0) 5 0 1 None None []]\<rparr>),
           heap = zeroes, trace = []\<rparr>) 0)
     = Inr \<lparr>m_lastTweenIndex = 1,
            m_tweenVec =
              [TweenData 0 True False False None (Fin 1) (Fin 0) 5 0 1 None None [],
               TweenData 0 True False False None (Fin 2) (Fin 9) 0 0 0 None None []]\<rparr>"
proof -
  have r: "run_all [(0, Call_From_val (Fin 1) blank), (0, Call_Time 5), (0, Call_Update 1)]
             (fresh zeroes)
   = Inr \<lparr>objs = (\<lambda>_. STween_ctor)
            (0 := \<lparr>m_lastTweenIndex = 0,
                   m_tweenVec =
                     [TweenData 0 True False False None (Fin 1) (Fin 0) 5 0 1 None None []]\<rparr>),
          heap = zeroes, trace = []\<rparr>"
    by (simp add: fresh_def zeroes_def blank_def setters members ticking Linear_def Let_def)
  from last_index_invariant [OF r, of 0 "set_finalValue (Fin 9)" "Fin 2" blank] r show ?thesis
    by (simp add: GetTweens_def From_val_def put_def push_back_def TweenData_ctor_def blank_def
        setters Let_def)
qed

subsection \<open>Calls on one object leave the others alone\<close>

lemma on_last_frame:
  "on_last this f w = Inr w' \<Longrightarrow> a \<noteq> this \<Longrightarrow> objs w' a = objs w a"
  by (auto simp: on_last_def put_def split: sum.splits)

lemma fold_AddTween_frame:
  "a \<noteq> this \<Longrightarrow> objs (fold (AddTween this) tweens w) a = objs w a"
  by (induction tweens arbitrary: w) (simp_all add: AddTween_objs)

lemma Update_frame:
  assumes "Update this dt w = Inr w'" and "a \<noteq> this"
  shows "objs w' a = objs w a"
proof -
  from assms(1) obtain vec l1 w1 where
    lp: "Update_loop dt (m_tweenVec (objs w this)) []
           \<lparr>tweensToAdd = [], tweensToDelete = [], counter = 0\<rparr> w = Inr (vec, l1, w1)"
    and w': "w' = fold (AddTween this) (tweensToAdd l1)
               (put this (erase_loop (rev (tweensToDelete l1))
                  ((objs w this)\<lparr>m_tweenVec := vec\<rparr>)) w1)"
    by (auto simp: Update_def Let_def split: sum.splits)
  have "objs w1 = objs w" by (rule Update_loop_objs [OF lp])
  with assms(2) show ?thesis
    unfolding w' by (simp add: fold_AddTween_frame put_def)
qed

lemma exec_frame:
  assumes "exec this c w = Inr w'" and "a \<noteq> this"
  shows "objs w' a = objs w a"
proof (cases c)
  case (Call_From_ptr p raw)
  with assms show ?thesis by simp
next
  case (Call_From_val v raw)
  with assms show ?thesis
    by (auto simp: From_val_def put_def Let_def)
next
  case (Call_Chain ch)
  with assms show ?thesis
    by (auto simp: Chain_def split: option.splits dest: on_last_frame)
next
  case Call_ReleaseTweens
  with assms show ?thesis
    by (auto simp: ReleaseTweens_def put_def)
next
  case (Call_AddTweens tweens)
  with assms show ?thesis
    by (auto simp: AddTweens_def fold_AddTween_frame)
next
  case (Call_AddTween tween)
  with assms show ?thesis
    by (auto simp: AddTween_objs)
next
  case (Call_Update dt)
  with assms show ?thesis
    by (auto dest: Update_frame)
qed (use assms in \<open>auto simp: To_def Time_def OnFinish_def OnStep_def Reversed_def Easing_def
      dest: on_last_frame\<close>)

lemma run_all_frame:
  "run_all cs w = Inr w' \<Longrightarrow> a \<notin> fst ` set cs \<Longrightarrow> objs w' a = objs w a"
proof (induction cs arbitrary: w)
  case Nil
  then show ?case by simp
next
  case (Cons c cs)
  obtain this c' where c: "c = (this, c')" by (cases c)
  from Cons.prems obtain w1 where
    e: "exec this c' w = Inr w1" and r: "run_all cs w1 = Inr w'"
    unfolding c by (auto split: sum.splits)
  from Cons.prems have n: "a \<noteq> this" "a \<notin> fst ` set cs"
    unfolding c by auto
  from Cons.IH [OF r n(2)] exec_frame [OF e n(1)] show ?case by simp
qed

text \<open>
  C6. \<^verbatim>\<open>Chain(other)\<close> on an object whose index is that of its last record stores, in the
  chain list of that record, the records that \<^verbatim>\<open>other\<close> holds at the moment of the call;
  after any later calls on objects other than the chaining one (adding records to
  \<^verbatim>\<open>other\<close>, reconfiguring them, advancing, resetting), the chain list is still the list
  of records that \<^verbatim>\<open>other\<close> held at the moment of the call.
\<close>

theorem Chain_is_a_snapshot:
  assumes "index_ok (objs w this)"
    and "Chain this (Some other) w = Inr w1"
    and "run_all cs w1 = Inr w2"
    and "this \<notin> fst ` set cs"
  shows "endTween (last (GetTweens this w1)) = GetTweens other w
       \<and> endTween (last (GetTweens this w2)) = GetTweens other w"
proof -
  from assms(2) obtain s where
    s: "at_last (set_endTween (GetTweens other w)) (objs w this) = Inr s"
    and w1: "w1 = put this s w"
    by (auto simp: Chain_def on_last_def split: sum.splits)
  from s have ne: "m_tweenVec (objs w this) \<noteq> []"
    by (auto simp: at_last_def Let_def split: if_splits)
  from s at_last_is_last [OF assms(1) ne, of "set_endTween (GetTweens other w)"]
  have "m_tweenVec s = butlast (m_tweenVec (objs w this))
          @ [set_endTween (GetTweens other w) (last (m_tweenVec (objs w this)))]"
    by auto
  then have "endTween (last (GetTweens this w1)) = GetTweens other w"
    by (simp add: w1 GetTweens_def put_def)
  moreover from run_all_frame [OF assms(3,4)] have "GetTweens this w2 = GetTweens this w1"
    by (simp add: GetTweens_def)
  ultimately show ?thesis by simp
qed

theorem Chain_is_a_snapshot_witness:
  "index_ok (objs two_objects 0)
   \<and> Chain 0 (Some 1) two_objects
       = Inr (put 0 \<lparr>m_lastTweenIndex = 0, m_tweenVec = [set_endTween [rec_b] rec_a]\<rparr>
                two_objects)
   \<and> run_all [(1, Call_To (Fin 7)), (1, Call_Update 1), (1, Call_ReleaseTweens),
               (1, Call_From_val (Fin 3) blank)]
        (put 0 \<lparr>m_lastTweenIndex = 0, m_tweenVec = [set_endTween [rec_b] rec_a]\<rparr> two_objects)
       = Inr (put 1 \<lparr>m_lastTweenIndex = 0,
                      m_tweenVec =
                        [TweenData (- 1) True False False None (Fin 3) (Fin 0) 0 0 0 None None []]\<rparr>
               (put 0 \<lparr>m_lastTweenIndex = 0, m_tweenVec = [set_endTween [rec_b] rec_a]\<rparr>
                  two_objects))
   \<and> 0 \<notin> fst ` set [(1, Call_To (Fin 7)), (1, Call_Update 1), (1, Call_ReleaseTweens),
                       (1 :: nat, Call_From_val (Fin 3) blank)]
   \<and> endTween (last (GetTweens 0
         (put 1 \<lparr>m_lastTweenIndex = 0,
                      m_tweenVec =
                        [TweenData (- 1) True False False None (Fin 3) (Fin 0) 0 0 0 None None []]\<rparr>
               (put 0 \<lparr>m_lastTweenIndex = 0, m_tweenVec = [set_endTween [rec_b] rec_a]\<rparr>
                  two_objects))))
       = [rec_b]"
proof -
  have i: "index_ok (objs two_objects 0)"
    by (simp add: two_objects_def put_def index_ok_def)
  have c: "Chain 0 (Some 1) two_objects
       = Inr (put 0 \<lparr>m_lastTweenIndex = 0, m_tweenVec = [set_endTween [rec_b] rec_a]\<rparr>
                two_objects)"
    by (simp add: two_objects_def fresh_def members)
  have r: "run_all [(1, Call_To (Fin 7)), (1, Call_Update 1), (1, Call_ReleaseTweens),
               (1, Call_From_val (Fin 3) blank)]
        (put 0 \<lparr>m_lastTweenIndex = 0, m_tweenVec = [set_endTween [rec_b] rec_a]\<rparr> two_objects)
       = Inr (put 1 \<lparr>m_lastTweenIndex = 0,
                      m_tweenVec =
                        [TweenData (- 1) True False False None (Fin 3) (Fin 0) 0 0 0 None None []]\<rparr>
               (put 0 \<lparr>m_lastTweenIndex = 0, m_tweenVec = [set_endTween [rec_b] rec_a]\<rparr>
                  two_objects))"
    by (simp add: two_objects_def fresh_def zeroes_def blank_def rec_a_def rec_b_def
        setters members ticking Linear_def Let_def)
  have n: "0 \<notin> fst ` set [(1, Call_To (Fin 7)), (1, Call_Update 1), (1, Call_ReleaseTweens),
                       (1 :: nat, Call_From_val (Fin 3) blank)]"
    by simp
  have g: "GetTweens 1 two_objects = [rec_b]"
    by (simp add: two_objects_def GetTweens_def put_def)
  from Chain_is_a_snapshot [OF i c r n] i c r n g show ?thesis
    by simp
qed

subsection \<open>Reversal\<close>

lemma sel_flipped [simp]:
  "tweenID (flipped t) = tweenID t"
  "fromReady (flipped t) = fromReady t"
  "byPointer (flipped t) = byPointer t"
  "reversed (flipped t) = (\<not> reversed t)"
  "initialValue (flipped t) = initialValue t"
  "initialCpy (flipped t) = finalValue t"
  "finalValue (flipped t) = initialCpy t"
  "duration (flipped t) = duration t"
  "easing (flipped t) = easing t"
  "timeCounter (flipped t) = timeCounter t"
  "finishCallback (flipped t) = finishCallback t"
  "stepCallback (flipped t) = stepCallback t"
  "endTween (flipped t) = endTween t"
  by (simp_all add: flipped_def)

lemma tween_value_flipped [simp]: "tween_value (flipped t) = tween_value t"
  by (simp add: tween_value_def)

lemma boundary_flipped [simp]: "boundary (flipped t) = boundary t"
  by (simp add: boundary_def)

lemma flipped_set [simp]:
  "flipped (set_tweenID i t) = set_tweenID i (flipped t)"
  "flipped (set_fromReady b t) = set_fromReady b (flipped t)"
  "flipped (set_timeCounter c t) = set_timeCounter c (flipped t)"
  by (simp_all add: flipped_def setters)

lemma twin_refl [simp]: "twin a a"
  by (simp add: twin_def)

lemma list_all2_twin_refl [simp]: "list_all2 twin xs xs"
  by (simp add: list_all2_refl)

lemma alike_refl [simp]: "alike s s"
  by (simp add: alike_def)

lemma same_outputs_refl [simp]: "same_outputs w w"
  by (simp add: same_outputs_def)

lemma Update_body_flipped:
  "Update_body dt (flipped t) l w =
     map_sum id (\<lambda>(t', l', w'). (flipped t', l', w')) (Update_body dt t l w)"
proof (cases "fromReady t")
  case False
  then show ?thesis by (simp add: Update_body_left_over)
next
  case True
  show ?thesis
  proof (cases "duration t \<le> timeCounter t")
    case True
    with \<open>fromReady t\<close> have "completes t" "completes (flipped t)"
      by (simp_all add: completes_def)
    then show ?thesis
      by (simp add: Update_body_completes split: sum.splits)
  next
    case False
    with \<open>fromReady t\<close> show ?thesis
      by (simp add: Update_body_continues split: sum.splits)
  qed
qed

text \<open>The body reads the world only through its storage and log.\<close>

lemma assign_objs:
  "assign p v (w\<lparr>objs := ob\<rparr>) = map_sum id (\<lambda>w1. w1\<lparr>objs := ob\<rparr>) (assign p v w)"
  by (cases p) (simp_all add: assign_def)

lemma call_step_objs:
  "call_step f v (w\<lparr>objs := ob\<rparr>) = (call_step f v w)\<lparr>objs := ob\<rparr>"
  by (cases f) (simp_all add: call_step_def)

lemma call_finish_objs:
  "call_finish f (w\<lparr>objs := ob\<rparr>) = (call_finish f w)\<lparr>objs := ob\<rparr>"
  by (cases f) (simp_all add: call_finish_def)

lemma Update_body_transplant:
  "Update_body dt t l (w\<lparr>objs := ob\<rparr>) =
     map_sum id (\<lambda>(t', l', w1). (t', l', w1\<lparr>objs := ob\<rparr>)) (Update_body dt t l w)"
proof (cases "fromReady t")
  case False
  then show ?thesis by (simp add: Update_body_left_over)
next
  case True
  show ?thesis
  proof (cases "byPointer t")
    case bp: False
    show ?thesis
    proof (cases "duration t \<le> timeCounter t")
      case True
      with \<open>fromReady t\<close> have "completes t" by (simp add: completes_def)
      with bp show ?thesis
        by (simp add: Update_body_completes call_step_objs call_finish_objs)
    next
      case False
      with \<open>fromReady t\<close> bp show ?thesis
        by (simp add: Update_body_continues call_step_objs)
    qed
  next
    case bp: True
    show ?thesis
    proof (cases "initialValue t")
      case None
      with bp \<open>fromReady t\<close> show ?thesis
        by (simp add: Update_body_def assign_def)
    next
      case (Some a)
      show ?thesis
      proof (cases "duration t \<le> timeCounter t")
        case True
        with \<open>fromReady t\<close> have "completes t" by (simp add: completes_def)
        with bp Some show ?thesis
          by (simp add: Update_body_completes assign_def call_step_def call_finish_def
              split: option.splits)
      next
        case False
        with \<open>fromReady t\<close> bp Some show ?thesis
          by (simp add: Update_body_continues assign_def call_step_def split: option.splits)
      qed
    qed
  qed
qed


lemma same_outputs_transplant:
  "same_outputs w w' \<Longrightarrow> w' = w\<lparr>objs := objs w'\<rparr>"
  by (cases w, cases w') (simp add: same_outputs_def)

lemma Update_body_twin:
  assumes "twin a b" and "same_outputs w w'"
    and "Update_body dt a l w = Inr (a', l', w1)"
  shows "\<exists>b' w1'. Update_body dt b l w' = Inr (b', l', w1') \<and> twin a' b'
           \<and> same_outputs w1 w1'"
proof -
  from assms(2) have w': "w' = w\<lparr>objs := objs w'\<rparr>"
    by (rule same_outputs_transplant)
  have o: "objs w1 = objs w" using assms(3) by (rule Update_body_objs)
  have so: "same_outputs w1 (w1\<lparr>objs := objs w'\<rparr>)"
    using assms(2) o by (simp add: same_outputs_def)
  from assms(1) consider "b = a" | "b = flipped a" by (auto simp: twin_def)
  then show ?thesis
  proof cases
    case 1
    have "Update_body dt b l w' = Inr (a', l', w1\<lparr>objs := objs w'\<rparr>)"
      by (subst w') (simp add: 1 Update_body_transplant assms(3))
    with so show ?thesis by auto
  next
    case 2
    have "Update_body dt b l w' = Inr (flipped a', l', w1\<lparr>objs := objs w'\<rparr>)"
      by (subst w') (simp add: 2 Update_body_transplant Update_body_flipped assms(3))
    with so show ?thesis by (auto simp: twin_def)
  qed
qed

lemma Update_body_twin_error:
  assumes "twin a b" and "same_outputs w w'"
    and "Update_body dt a l w = Inl e"
  shows "Update_body dt b l w' = Inl e"
proof -
  from assms(2) have w': "w' = w\<lparr>objs := objs w'\<rparr>"
    by (rule same_outputs_transplant)
  from assms(1) consider "b = a" | "b = flipped a" by (auto simp: twin_def)
  then show ?thesis
  proof cases
    case 1
    show ?thesis by (subst w') (simp add: 1 Update_body_transplant assms(3))
  next
    case 2
    show ?thesis
      by (subst w') (simp add: 2 Update_body_transplant Update_body_flipped assms(3))
  qed
qed

lemma Update_loop_twin:
  assumes "list_all2 twin ts ts'" and "list_all2 twin seen seen'" and "same_outputs w w'"
  shows "loop_rel (Update_loop dt ts seen l w) (Update_loop dt ts' seen' l w')"
  using assms
proof (induction ts ts' arbitrary: seen seen' l w w' rule: list_all2_induct)
  case Nil
  then show ?case by (simp add: loop_rel_def)
next
  case (Cons a ts b ts')
  show ?case
  proof (cases "Update_body dt a l w")
    case (Inl e)
    with Update_body_twin_error [OF Cons.hyps(1) Cons.prems(2) Inl]
    show ?thesis by (simp add: loop_rel_def)
  next
    case (Inr r)
    obtain a' l' w1 where r: "r = (a', l', w1)" by (cases r)
    from Update_body_twin [OF Cons.hyps(1) Cons.prems(2) Inr [unfolded r]]
    obtain b' w1' where
      b: "Update_body dt b l w' = Inr (b', l', w1')" and t: "twin a' b'"
      and s: "same_outputs w1 w1'" by blast
    from Cons.prems(1) t have "list_all2 twin (seen @ [a']) (seen' @ [b'])"
      by (simp add: list_all2_appendI)
    from Cons.IH [OF this s] show ?thesis
      by (simp add: Inr r b)
  qed
qed

lemma list_all2_swap_remove:
  assumes "list_all2 R xs ys"
  shows "list_all2 R (butlast (xs[i := last xs])) (butlast (ys[i := last ys]))"
proof (cases "xs = []")
  case True
  with assms show ?thesis by simp
next
  case False
  with assms have ne: "ys \<noteq> []" by auto
  from assms have len: "length xs = length ys" by (rule list_all2_lengthD)
  from assms False ne len have "R (last xs) (last ys)"
    by (simp add: last_conv_nth list_all2_conv_all_nth)
  with assms have "list_all2 R (xs[i := last xs]) (ys[i := last ys])"
    by (rule list_all2_update_cong)
  then show ?thesis
    by (simp add: list_all2_conv_all_nth nth_butlast)
qed

lemma erase_loop_alike:
  "alike s s' \<Longrightarrow> alike (erase_loop its s) (erase_loop its s')"
proof (induction its arbitrary: s s')
  case Nil
  then show ?case by simp
next
  case (Cons it its)
  show ?case
    unfolding erase_loop.simps
    by (rule Cons.IH) (use Cons.prems in \<open>simp add: alike_def list_all2_swap_remove\<close>)
qed

lemma AddTween_outputs [simp]:
  "heap (AddTween this t w) = heap w" "trace (AddTween this t w) = trace w"
  by (simp_all add: AddTween_def put_def Let_def)

lemma AddTween_same:
  assumes "same_outputs w w'"
  shows "same_outputs (AddTween this t w) (AddTween this t w')"
proof -
  from assms have a: "alike (objs w obj) (objs w' obj)" for obj
    by (simp add: same_outputs_def)
  from a [of this] have
    "alike ((objs w this)\<lparr>m_tweenVec := m_tweenVec (objs w this)
                        @ [set_tweenID (m_lastTweenIndex (objs w this)) t],
         m_lastTweenIndex := m_lastTweenIndex (objs w this) + 1\<rparr>)
       ((objs w' this)\<lparr>m_tweenVec := m_tweenVec (objs w' this)
                        @ [set_tweenID (m_lastTweenIndex (objs w' this)) t],
         m_lastTweenIndex := m_lastTweenIndex (objs w' this) + 1\<rparr>)"
    by (simp add: alike_def list_all2_appendI)
  with a assms show ?thesis
    by (simp add: same_outputs_def AddTween_objs)
qed

lemma fold_AddTween_same:
  "same_outputs w w' \<Longrightarrow>
     same_outputs (fold (AddTween this) ts w) (fold (AddTween this) ts w')"
  by (induction ts arbitrary: w w') (simp_all add: AddTween_same)

lemma put_same:
  "same_outputs w w' \<Longrightarrow> alike s s' \<Longrightarrow> same_outputs (put this s w) (put this s' w')"
  by (simp add: same_outputs_def put_def)

lemma Update_same:
  assumes "same_outputs w w'"
  shows "rel_sum (=) same_outputs (Update this dt w) (Update this dt w')"
proof -
  let ?l = "\<lparr>tweensToAdd = [], tweensToDelete = [], counter = 0\<rparr>"
  from assms have a: "alike (objs w this) (objs w' this)"
    by (simp add: same_outputs_def)
  then have "list_all2 twin (m_tweenVec (objs w this)) (m_tweenVec (objs w' this))"
    by (simp add: alike_def)
  from Update_loop_twin [OF this _ assms, of "[]" "[]" dt ?l]
  have lr: "loop_rel (Update_loop dt (m_tweenVec (objs w this)) [] ?l w)
              (Update_loop dt (m_tweenVec (objs w' this)) [] ?l w')"
    by simp
  show ?thesis
  proof (cases "Update_loop dt (m_tweenVec (objs w this)) [] ?l w")
    case (Inl e)
    with lr show ?thesis by (simp add: loop_rel_def Update_def)
  next
    case (Inr r)
    obtain v l1 w1 where r: "r = (v, l1, w1)" by (cases r)
    from lr Inr r obtain v' w1' where
      r': "Update_loop dt (m_tweenVec (objs w' this)) [] ?l w' = Inr (v', l1, w1')"
      and v: "list_all2 twin v v'" and s: "same_outputs w1 w1'"
      by (auto simp: loop_rel_def split: sum.splits)
    from a v have "alike ((objs w this)\<lparr>m_tweenVec := v\<rparr>) ((objs w' this)\<lparr>m_tweenVec := v'\<rparr>)"
      by (simp add: alike_def)
    then have "alike (erase_loop (rev (tweensToDelete l1)) ((objs w this)\<lparr>m_tweenVec := v\<rparr>))
                 (erase_loop (rev (tweensToDelete l1)) ((objs w' this)\<lparr>m_tweenVec := v'\<rparr>))"
      by (rule erase_loop_alike)
    with s show ?thesis
      by (simp add: Update_def Inr r r' Let_def fold_AddTween_same put_same)
  qed
qed

lemma run_Updates_same:
  "same_outputs w w' \<Longrightarrow>
     rel_sum (=) same_outputs (run this (map Call_Update dts) w) (run this (map Call_Update dts) w')"
proof (induction dts arbitrary: w w')
  case Nil
  then show ?case by simp
next
  case (Cons dt dts)
  from Update_same [OF Cons.prems, of this dt] show ?case
    by (cases rule: rel_sum.cases) (simp_all add: Cons.IH)
qed

text \<open>
  C5. Take any object, with any records before and after the one considered, any storage
  and any sequence of \<^verbatim>\<open>Update\<close> calls. A record with \<^verbatim>\<open>initialCpy = S\<close>, \<^verbatim>\<open>finalValue = E\<close>
  and \<^verbatim>\<open>reversed = true\<close> and the record with \<^verbatim>\<open>initialCpy = E\<close>, \<^verbatim>\<open>finalValue = S\<close> and
  \<^verbatim>\<open>reversed = false\<close>, all other fields equal, give the same result: the same error, or
  the same storage and the same log of pointer writes, step callbacks and finish callbacks
  (the eased value of every tick and the boundary value).
\<close>

theorem reversed_is_swapped_bounds:
  "map_sum id (\<lambda>w. (heap w, trace w))
     (run this (map Call_Update dts)
        (put this \<lparr>m_lastTweenIndex = i,
                   m_tweenVec = before @ [TweenData n fr bp True p S E D e tc fin stp ch] @ after\<rparr> w))
   = map_sum id (\<lambda>w. (heap w, trace w))
     (run this (map Call_Update dts)
        (put this \<lparr>m_lastTweenIndex = i,
                   m_tweenVec = before @ [TweenData n fr bp False p E S D e tc fin stp ch] @ after\<rparr> w))"
proof -
  have "twin (TweenData n fr bp True p S E D e tc fin stp ch)
             (TweenData n fr bp False p E S D e tc fin stp ch)"
    by (simp add: twin_def flipped_def)
  then have "same_outputs
      (put this \<lparr>m_lastTweenIndex = i,
                   m_tweenVec = before @ [TweenData n fr bp True p S E D e tc fin stp ch] @ after\<rparr> w)
      (put this \<lparr>m_lastTweenIndex = i,
                   m_tweenVec = before @ [TweenData n fr bp False p E S D e tc fin stp ch] @ after\<rparr> w)"
    by (intro put_same) (simp_all add: alike_def list_all2_appendI)
  from run_Updates_same [OF this, of this dts] show ?thesis
    by (cases rule: rel_sum.cases) (simp_all add: same_outputs_def)
qed

subsection \<open>Appending leaves storage and log alone\<close>

lemma fold_AddTween_outputs [simp]:
  "heap (fold (AddTween this) ts w) = heap w" "trace (fold (AddTween this) ts w) = trace w"
  by (induction ts arbitrary: w) simp_all

subsection \<open>What \<^verbatim>\<open>Update\<close> leaves in the vector\<close>

lemma swap_remove_mset:
  assumes "i < length xs"
  shows "mset (butlast (xs[i := last xs])) + {#xs ! i#} = mset xs"
proof -
  from assms have ne: "xs \<noteq> []" by auto
  then obtain ys y where xs: "xs = ys @ [y]" by (cases xs rule: rev_cases) auto
  show ?thesis
  proof (cases "i = length ys")
    case True
    then show ?thesis by (simp add: xs)
  next
    case False
    with assms xs have i: "i < length ys" by simp
    then have "butlast (xs[i := last xs]) = ys[i := y]"
      by (simp add: xs list_update_append)
    moreover have "xs ! i = ys ! i" using i by (simp add: xs nth_append)
    moreover have "mset (ys[i := y]) + {#ys ! i#} = mset ys + {#y#}"
      using i by (simp add: mset_update)
    ultimately show ?thesis by (simp add: xs)
  qed
qed

lemma swap_remove_nth:
  assumes "j < i" and "i < length xs"
  shows "butlast (xs[i := last xs]) ! j = xs ! j"
  using assms by (simp add: nth_butlast)

lemma erase_loop_mset:
  assumes "sorted_wrt (>) its" and "\<forall>it\<in>set its. 0 \<le> it \<and> nat it < length (m_tweenVec s)"
  shows "mset (m_tweenVec (erase_loop its s)) + mset (map (\<lambda>it. m_tweenVec s ! nat it) its)
           = mset (m_tweenVec s)
       \<and> m_lastTweenIndex (erase_loop its s) = m_lastTweenIndex s - int (length its)"
  using assms
proof (induction its arbitrary: s)
  case Nil
  then show ?case by simp
next
  case (Cons it its)
  let ?v = "m_tweenVec s"
  let ?s = "\<lparr>m_lastTweenIndex = m_lastTweenIndex s - 1,
            m_tweenVec = butlast (?v[nat it := last ?v])\<rparr>"
  from Cons.prems have it: "0 \<le> it" "nat it < length ?v" by simp_all
  have less: "0 \<le> j \<and> nat j < nat it" if "j \<in> set its" for j
  proof -
    from that Cons.prems have "j < it" "0 \<le> j" by auto
    then show ?thesis by simp
  qed
  have a: "sorted_wrt (>) its" using Cons.prems by simp
  have len: "length (m_tweenVec ?s) = length ?v - 1" by simp
  have b: "\<forall>j\<in>set its. 0 \<le> j \<and> nat j < length (m_tweenVec ?s)"
  proof
    fix j assume "j \<in> set its"
    from less [OF this] it(2) show "0 \<le> j \<and> nat j < length (m_tweenVec ?s)"
      unfolding len by linarith
  qed
  have same: "map (\<lambda>j. m_tweenVec ?s ! nat j) its = map (\<lambda>j. ?v ! nat j) its"
  proof (rule map_cong [OF refl])
    fix j assume "j \<in> set its"
    from less [OF this] have "nat j < nat it" by simp
    from swap_remove_nth [OF this it(2)] show "m_tweenVec ?s ! nat j = ?v ! nat j"
      by simp
  qed
  from Cons.IH [OF a b] have
    ih: "mset (m_tweenVec (erase_loop its ?s)) + mset (map (\<lambda>j. ?v ! nat j) its)
           = mset (butlast (?v[nat it := last ?v]))"
    and ix: "m_lastTweenIndex (erase_loop its ?s) = m_lastTweenIndex s - 1 - int (length its)"
    unfolding same by simp_all
  have "mset (m_tweenVec (erase_loop (it # its) s))
          + mset (map (\<lambda>j. ?v ! nat j) (it # its))
        = (mset (m_tweenVec (erase_loop its ?s)) + mset (map (\<lambda>j. ?v ! nat j) its))
          + {#?v ! nat it#}"
    by simp
  also have "\<dots> = mset (butlast (?v[nat it := last ?v])) + {#?v ! nat it#}"
    by (simp only: ih)
  also have "\<dots> = mset ?v"
    by (rule swap_remove_mset [OF it(2)])
  finally show ?case using ix by simp
qed


lemma Update_body_effect:
  assumes "Update_body dt t l w = Inr (t', l', w')"
  shows "counter l' = counter l + 1"
    and "tweensToDelete l' = tweensToDelete l @ (if fromReady t' then [] else [counter l])"
    and "tweensToAdd l' = tweensToAdd l @ (if completes t then endTween t else [])"
    and "fromReady t' \<longleftrightarrow> fromReady t \<and> \<not> duration t \<le> timeCounter t"
proof -
  consider "\<not> fromReady t" | "completes t" | "fromReady t" "\<not> duration t \<le> timeCounter t"
    by (auto simp: completes_def)
  then have "counter l' = counter l + 1
      \<and> tweensToDelete l' = tweensToDelete l @ (if fromReady t' then [] else [counter l])
      \<and> tweensToAdd l' = tweensToAdd l @ (if completes t then endTween t else [])
      \<and> (fromReady t' \<longleftrightarrow> fromReady t \<and> \<not> duration t \<le> timeCounter t)"
  proof cases
    case 1
    with assms show ?thesis
      by (auto simp: Update_body_left_over completes_def)
  next
    case 2
    with assms show ?thesis
      by (auto simp: Update_body_completes completes_def split: sum.splits)
  next
    case 3
    with assms show ?thesis
      by (auto simp: Update_body_continues completes_def split: sum.splits)
  qed
  then show "counter l' = counter l + 1"
    and "tweensToDelete l' = tweensToDelete l @ (if fromReady t' then [] else [counter l])"
    and "tweensToAdd l' = tweensToAdd l @ (if completes t then endTween t else [])"
    and "fromReady t' \<longleftrightarrow> fromReady t \<and> \<not> duration t \<le> timeCounter t"
    by simp_all
qed

lemma flagged_snoc:
  "flagged (v @ [t]) = flagged v @ (if fromReady t then [] else [int (length v)])"
proof -
  have "filter (\<lambda>k. \<not> fromReady ((v @ [t]) ! k)) [0..<length v]
          = filter (\<lambda>k. \<not> fromReady (v ! k)) [0..<length v]"
    by (rule filter_cong) (simp_all add: nth_append)
  then show ?thesis by (simp add: flagged_def)
qed

lemma Update_loop_effect:
  assumes "Update_loop dt ts seen l w = Inr (v, l', w')"
    and "counter l = int (length seen)" and "tweensToDelete l = flagged seen"
  shows "tweensToDelete l' = flagged v
       \<and> tweensToAdd l' = tweensToAdd l @ concat (map endTween (filter completes ts))
       \<and> length (filter fromReady v) = length (filter fromReady seen)
            + length (filter (\<lambda>t. fromReady t \<and> \<not> duration t \<le> timeCounter t) ts)"
  using assms
proof (induction ts arbitrary: seen l w)
  case Nil
  then show ?case by simp
next
  case (Cons t ts)
  from Cons.prems(1) obtain t1 l1 w1 where
    b: "Update_body dt t l w = Inr (t1, l1, w1)"
    and r: "Update_loop dt ts (seen @ [t1]) l1 w1 = Inr (v, l', w')"
    by (auto split: sum.splits)
  note e = Update_body_effect [OF b]
  have c: "counter l1 = int (length (seen @ [t1]))"
    using e(1) Cons.prems(2) by simp
  have d: "tweensToDelete l1 = flagged (seen @ [t1])"
    using e(2) Cons.prems(2,3) by (simp add: flagged_snoc)
  from Cons.IH [OF r c d] e(3,4) show ?case
    by simp
qed

lemma flagged_sorted: "sorted_wrt (>) (rev (flagged v))"
proof -
  have "sorted_wrt (<) (filter (\<lambda>k. \<not> fromReady (v ! k)) [0..<length v])"
    by (rule sorted_wrt_filter) simp
  then have "sorted_wrt (<) (flagged v)"
    unfolding flagged_def by (simp add: sorted_wrt_map)
  then show ?thesis
    by (simp add: sorted_wrt_rev)
qed

lemma flagged_range: "\<forall>it\<in>set (rev (flagged v)). 0 \<le> it \<and> nat it < length v"
  by (auto simp: flagged_def)

lemma flagged_elements:
  "mset (map (\<lambda>it. v ! nat it) (rev (flagged v))) = mset (filter (\<lambda>t. \<not> fromReady t) v)"
proof -
  have "map (\<lambda>it. v ! nat it) (flagged v)
          = map (nth v) (filter (\<lambda>k. \<not> fromReady (v ! k)) [0..<length v])"
    by (simp add: flagged_def comp_def)
  also have "\<dots> = filter (\<lambda>t. \<not> fromReady t) (map (nth v) [0..<length v])"
    by (simp add: filter_map comp_def)
  also have "\<dots> = filter (\<lambda>t. \<not> fromReady t) v"
    by (simp add: map_nth)
  finally show ?thesis by (simp add: rev_map [symmetric])
qed

lemma erase_flagged:
  "mset (m_tweenVec (erase_loop (rev (flagged v)) (s\<lparr>m_tweenVec := v\<rparr>)))
     = mset (filter fromReady v)
   \<and> m_lastTweenIndex (erase_loop (rev (flagged v)) (s\<lparr>m_tweenVec := v\<rparr>))
     = m_lastTweenIndex s - int (length (filter (\<lambda>t. \<not> fromReady t) v))"
proof -
  let ?s = "s\<lparr>m_tweenVec := v\<rparr>"
  have r: "\<forall>it\<in>set (rev (flagged v)). 0 \<le> it \<and> nat it < length (m_tweenVec ?s)"
    using flagged_range [of v] by simp
  from erase_loop_mset [OF flagged_sorted r] flagged_elements [of v]
  have m: "mset (m_tweenVec (erase_loop (rev (flagged v)) ?s))
             + mset (filter (\<lambda>t. \<not> fromReady t) v) = mset v"
    and i: "m_lastTweenIndex (erase_loop (rev (flagged v)) ?s)
             = m_lastTweenIndex s - int (length (flagged v))"
    by simp_all
  have "mset (filter fromReady v) + mset (filter (\<lambda>t. \<not> fromReady t) v) = mset v"
    by (induction v) simp_all
  with m have "mset (m_tweenVec (erase_loop (rev (flagged v)) ?s)) = mset (filter fromReady v)"
    by (metis add_right_cancel)
  moreover have "length (flagged v) = length (filter (\<lambda>t. \<not> fromReady t) v)"
    using flagged_elements [of v] by (metis length_map length_rev size_mset)
  ultimately show ?thesis using i by simp
qed


lemma fold_AddTween_vec:
  "m_tweenVec (objs (fold (AddTween this) ts w) this)
     = m_tweenVec (objs w this)
       @ map (\<lambda>(j, r). set_tweenID (m_lastTweenIndex (objs w this) - int n + int j) r)
           (enumerate n ts)
   \<and> m_lastTweenIndex (objs (fold (AddTween this) ts w) this)
     = m_lastTweenIndex (objs w this) + int (length ts)"
proof (induction ts arbitrary: w n)
  case Nil
  then show ?case by simp
next
  case (Cons t ts)
  from Cons.IH [of "AddTween this t w" "Suc n"] show ?case
    by (simp add: AddTween_objs)
qed

lemma Update_shape:
  assumes "Update this dt w = Inr w'"
  obtains v l1 w1 where
    "Update_loop dt (m_tweenVec (objs w this)) []
       \<lparr>tweensToAdd = [], tweensToDelete = [], counter = 0\<rparr> w = Inr (v, l1, w1)"
    and "w' = fold (AddTween this) (tweensToAdd l1)
               (put this (erase_loop (rev (tweensToDelete l1))
                  ((objs w this)\<lparr>m_tweenVec := v\<rparr>)) w1)"
  using assms by (auto simp: Update_def Let_def split: sum.splits)

lemma Update_vector:
  assumes "Update this dt w = Inr w'" and "index_ok (objs w this)"
  obtains kept where
    "GetTweens this w' = kept
       @ map (\<lambda>(p, r). set_tweenID (int p - 1) r)
           (enumerate (length kept)
              (concat (map endTween (filter completes (GetTweens this w)))))"
    and "\<forall>r\<in>set kept. fromReady r"
    and "length kept = length (filter (\<lambda>t. fromReady t \<and> \<not> duration t \<le> timeCounter t)
                                 (GetTweens this w))"
proof -
  let ?vec = "m_tweenVec (objs w this)"
  let ?l = "\<lparr>tweensToAdd = [], tweensToDelete = [], counter = 0\<rparr>"
  from assms(1) obtain v l1 w1 where
    lp: "Update_loop dt ?vec [] ?l w = Inr (v, l1, w1)"
    and w': "w' = fold (AddTween this) (tweensToAdd l1)
               (put this (erase_loop (rev (tweensToDelete l1))
                  ((objs w this)\<lparr>m_tweenVec := v\<rparr>)) w1)"
    by (rule Update_shape)
  let ?added = "concat (map endTween (filter completes ?vec))"
  let ?k = "length (filter (\<lambda>t. fromReady t \<and> \<not> duration t \<le> timeCounter t) ?vec)"
  from Update_loop_effect [OF lp] have
    del: "tweensToDelete l1 = flagged v" and add: "tweensToAdd l1 = ?added"
    and k: "length (filter fromReady v) = ?k"
    by (simp_all add: flagged_def)
  from Update_loop_counts [OF lp] have len: "length v = length ?vec" by simp
  let ?s = "erase_loop (rev (flagged v)) ((objs w this)\<lparr>m_tweenVec := v\<rparr>)"
  from erase_flagged [of v "objs w this"] have
    m: "mset (m_tweenVec ?s) = mset (filter fromReady v)"
    and i: "m_lastTweenIndex ?s
              = m_lastTweenIndex (objs w this) - int (length (filter (\<lambda>t. \<not> fromReady t) v))"
    by simp_all
  from m have kl: "length (m_tweenVec ?s) = ?k"
    using k by (metis size_mset)
  have act: "\<forall>r\<in>set (m_tweenVec ?s). fromReady r"
  proof -
    from m have "set (m_tweenVec ?s) = set (filter fromReady v)"
      by (rule mset_eq_setD)
    then show ?thesis by simp
  qed
  have "length (filter fromReady v) + length (filter (\<lambda>t. \<not> fromReady t) v) = length v"
    by (rule sum_length_filter_compl)
  with i assms(2) len k have ix: "m_lastTweenIndex ?s = int ?k - 1"
    by (simp add: index_ok_def)
  from fold_AddTween_vec [of this ?added "put this ?s w1" ?k] ix
  have vec': "m_tweenVec (objs w' this)
           = m_tweenVec ?s @ map (\<lambda>(p, r). set_tweenID (int p - 1) r) (enumerate ?k ?added)"
    unfolding w' del add by (simp add: put_def)
  from vec' kl act show ?thesis
    by (intro that [of "m_tweenVec ?s"]) (simp_all add: GetTweens_def)
qed


text \<open>
  In \<^verbatim>\<open>src/STween.h\<close> a record that is not active when \<^verbatim>\<open>Update\<close> returns was appended from
  a chain list: the records that completed, and the left-overs, are gone.
\<close>

lemma inactive_only_if_appended:
  assumes "Update this dt w = Inr w'" and "index_ok (objs w this)"
    and "r \<in> set (GetTweens this w')" and "\<not> fromReady r"
  shows "\<exists>c\<in>set (concat (map endTween (filter completes (GetTweens this w)))).
           \<exists>i. r = set_tweenID i c"
proof -
  from assms(1,2) obtain kept where
    v: "GetTweens this w' = kept
       @ map (\<lambda>(p, r). set_tweenID (int p - 1) r)
           (enumerate (length kept)
              (concat (map endTween (filter completes (GetTweens this w)))))"
    and a: "\<forall>r\<in>set kept. fromReady r"
    by (rule Update_vector)
  from assms(3,4) a v have
    "r \<in> set (map (\<lambda>(p, r). set_tweenID (int p - 1) r)
           (enumerate (length kept)
              (concat (map endTween (filter completes (GetTweens this w))))))"
    by auto
  then obtain p c where
    pc: "(p, c) \<in> set (enumerate (length kept)
              (concat (map endTween (filter completes (GetTweens this w)))))"
    and r: "r = set_tweenID (int p - 1) c"
    by auto
  from pc have "c \<in> set (concat (map endTween (filter completes (GetTweens this w))))"
    unfolding enumerate_eq_zip by (rule set_zip_rightD)
  with r show ?thesis by blast
qed

text \<open>
  C8, as stated, fails in its last part: the identifier given to an appended record is
  the value of \<^verbatim>\<open>m_lastTweenIndex\<close> before the insertion, which is the index of the record
  in front of it, and \<^verbatim>\<open>Update\<close> has just set the identifier of every surviving record to
  its index. Object \<open>0\<close> holds a ten-second record and a one-second record chained to the
  record of object \<open>1\<close>; on the second \<^verbatim>\<open>Update(1)\<close> the one-second record completes and the
  chained record is appended with identifier \<open>0\<close>, the identifier of the survivor.
\<close>

theorem appended_identifier_counterexample:
  "map_sum id (\<lambda>w. map tweenID (GetTweens 0 w))
     (run_all [(1, Call_From_val (Fin 5) blank), (1, Call_To (Fin 6)), (1, Call_Time 2),
               (0, Call_From_val (Fin 0) blank), (0, Call_To (Fin 1)), (0, Call_Time 10),
               (0, Call_From_val (Fin 0) blank), (0, Call_To (Fin 1)), (0, Call_Time 1),
               (0, Call_Chain (Some 1)),
               (0, Call_Update 1), (0, Call_Update 1)] (fresh zeroes))
   = Inr [0, 0]
   \<and> \<not> distinct [0 :: int, 0]"
  by (simp add: fresh_def zeroes_def blank_def setters members ticking Linear_def Let_def)

text \<open>
  C8, amended. When \<^verbatim>\<open>Update\<close> returns, the vector holds the \<open>k\<close> records that were active
  and had not reached their duration, all still active, followed by the records of the
  chain lists of the records that completed during the call, in the order of completion
  and of the lists. An appended record has the fields it was captured with, except
  \<^verbatim>\<open>tweenID\<close>, which is its position in the vector minus one; it was appended after the
  evaluation pass and the removals, so this call has not evaluated it.
\<close>

theorem chained_records_are_appended:
  assumes "Update this dt w = Inr w'" and "index_ok (objs w this)"
  shows "let added = concat (map endTween (filter completes (GetTweens this w)));
             k = length (filter (\<lambda>t. fromReady t \<and> \<not> duration t \<le> timeCounter t)
                           (GetTweens this w))
         in length (GetTweens this w') = k + length added
          \<and> drop k (GetTweens this w')
              = map (\<lambda>(p, r). set_tweenID (int p - 1) r) (enumerate k added)
          \<and> (\<forall>r\<in>set (take k (GetTweens this w')). fromReady r)"
proof -
  from assms obtain kept where
    v: "GetTweens this w' = kept
       @ map (\<lambda>(p, r). set_tweenID (int p - 1) r)
           (enumerate (length kept)
              (concat (map endTween (filter completes (GetTweens this w)))))"
    and a: "\<forall>r\<in>set kept. fromReady r"
    and k: "length kept = length (filter (\<lambda>t. fromReady t \<and> \<not> duration t \<le> timeCounter t)
                                    (GetTweens this w))"
    by (rule Update_vector)
  from a k show ?thesis
    unfolding Let_def by (subst (1 2 3) v) (simp add: k [symmetric])
qed

theorem chained_records_are_appended_witness:
  "Update 0 1
     (put 0 \<lparr>m_lastTweenIndex = 1,
             m_tweenVec =
               [TweenData 0 True False False None (Fin 0) (Fin 1) 10 0 1 None None [],
                TweenData 1 True False False None (Fin 0) (Fin 1) 1 0 1 None None [rec_b]]\<rparr>
        (fresh zeroes))
   = Inr (put 0 \<lparr>m_lastTweenIndex = 1,
             m_tweenVec =
               [TweenData 0 True False False None (Fin 0) (Fin 1) 10 0 2 None None [],
                TweenData 0 True False False None (Fin 5) (Fin 6) 2 0 0 None None []]\<rparr>
        (fresh zeroes))
   \<and> drop 1 (GetTweens 0
         (put 0 \<lparr>m_lastTweenIndex = 1,
             m_tweenVec =
               [TweenData 0 True False False None (Fin 0) (Fin 1) 10 0 2 None None [],
                TweenData 0 True False False None (Fin 5) (Fin 6) 2 0 0 None None []]\<rparr>
            (fresh zeroes)))
     = [set_tweenID 0 rec_b]"
proof -
  have u: "Update 0 1
     (put 0 \<lparr>m_lastTweenIndex = 1,
             m_tweenVec =
               [TweenData 0 True False False None (Fin 0) (Fin 1) 10 0 1 None None [],
                TweenData 1 True False False None (Fin 0) (Fin 1) 1 0 1 None None [rec_b]]\<rparr>
        (fresh zeroes))
   = Inr (put 0 \<lparr>m_lastTweenIndex = 1,
             m_tweenVec =
               [TweenData 0 True False False None (Fin 0) (Fin 1) 10 0 2 None None [],
                TweenData 0 True False False None (Fin 5) (Fin 6) 2 0 0 None None []]\<rparr>
        (fresh zeroes))"
    by (simp add: fresh_def rec_b_def setters members ticking Linear_def Let_def)
  have i: "index_ok (objs (put 0 \<lparr>m_lastTweenIndex = 1,
             m_tweenVec =
               [TweenData 0 True False False None (Fin 0) (Fin 1) 10 0 1 None None [],
                TweenData 1 True False False None (Fin 0) (Fin 1) 1 0 1 None None [rec_b]]\<rparr>
        (fresh zeroes)) 0)"
    by (simp add: put_def index_ok_def)
  from chained_records_are_appended [OF u i] u show ?thesis
    by (simp add: Let_def GetTweens_def put_def completes_def enumerate_eq_zip)
qed

subsection \<open>The call that writes the final value\<close>

lemma Update_body_trace:
  assumes "Update_body dt t l w = Inr (t', l', w')"
  shows "trace w' = trace w @ tick_events t"
proof -
  consider "\<not> fromReady t" | "completes t" | "fromReady t" "\<not> duration t \<le> timeCounter t"
    by (auto simp: completes_def)
  then show ?thesis
  proof cases
    case 1
    with assms show ?thesis
      by (auto simp: Update_body_left_over tick_events_def)
  next
    case 2
    with assms show ?thesis
      by (auto simp: Update_body_completes completes_def tick_events_def pointer_write_def
          assign_def call_step_def call_finish_def step_events_def finish_events_def
          split: sum.splits option.splits if_splits)
  next
    case 3
    with assms show ?thesis
      by (auto simp: Update_body_continues tick_events_def pointer_write_def
          assign_def call_step_def step_events_def
          split: sum.splits option.splits if_splits)
  qed
qed

lemma Update_body_heap_own:
  assumes "Update_body dt t l w = Inr (t', l', w')"
    and "fromReady t" and "byPointer t" and "initialValue t = Some a"
  shows "heap w' a = (if duration t \<le> timeCounter t then boundary t else tween_value t)"
proof (cases "duration t \<le> timeCounter t")
  case True
  with assms(2) have "completes t" by (simp add: completes_def)
  with assms True show ?thesis
    by (auto simp: Update_body_completes assign_def call_step_def call_finish_def
        split: option.splits)
next
  case False
  with assms show ?thesis
    by (auto simp: Update_body_continues assign_def call_step_def split: option.splits)
qed

lemma Update_body_heap_other:
  assumes "Update_body dt t l w = Inr (t', l', w')"
    and "fromReady t \<and> byPointer t \<longrightarrow> initialValue t \<noteq> Some a"
  shows "heap w' a = heap w a"
proof -
  consider "\<not> fromReady t" | "completes t" | "fromReady t" "\<not> duration t \<le> timeCounter t"
    by (auto simp: completes_def)
  then show ?thesis
  proof cases
    case 1
    with assms show ?thesis
      by (auto simp: Update_body_left_over)
  next
    case 2
    with assms show ?thesis
      by (auto simp: Update_body_completes completes_def assign_def call_step_def
          call_finish_def split: sum.splits option.splits if_splits)
  next
    case 3
    with assms show ?thesis
      by (auto simp: Update_body_continues assign_def call_step_def
          split: sum.splits option.splits if_splits)
  qed
qed

lemma Update_loop_append:
  "Update_loop dt (xs @ ys) seen l w =
     (case Update_loop dt xs seen l w of
        Inl e \<Rightarrow> Inl e
      | Inr (seen', l', w') \<Rightarrow> Update_loop dt ys seen' l' w')"
  by (induction xs arbitrary: seen l w) (simp_all split: sum.splits)

lemma Update_loop_trace:
  "Update_loop dt ts seen l w = Inr (v, l', w') \<Longrightarrow>
     trace w' = trace w @ concat (map tick_events ts)"
proof (induction ts arbitrary: seen l w)
  case Nil
  then show ?case by simp
next
  case (Cons t ts)
  from Cons.prems obtain t1 l1 w1 where
    b: "Update_body dt t l w = Inr (t1, l1, w1)"
    and r: "Update_loop dt ts (seen @ [t1]) l1 w1 = Inr (v, l', w')"
    by (auto split: sum.splits)
  from Cons.IH [OF r] Update_body_trace [OF b] show ?case by simp
qed

lemma Update_loop_heap_other:
  "Update_loop dt ts seen l w = Inr (v, l', w') \<Longrightarrow>
     \<forall>r\<in>set ts. fromReady r \<and> byPointer r \<longrightarrow> initialValue r \<noteq> Some a \<Longrightarrow>
     heap w' a = heap w a"
proof (induction ts arbitrary: seen l w)
  case Nil
  then show ?case by simp
next
  case (Cons t ts)
  from Cons.prems(1) obtain t1 l1 w1 where
    b: "Update_body dt t l w = Inr (t1, l1, w1)"
    and r: "Update_loop dt ts (seen @ [t1]) l1 w1 = Inr (v, l', w')"
    by (auto split: sum.splits)
  from Cons.prems(2) have
    t: "fromReady t \<and> byPointer t \<longrightarrow> initialValue t \<noteq> Some a"
    and ts: "\<forall>r\<in>set ts. fromReady r \<and> byPointer r \<longrightarrow> initialValue r \<noteq> Some a"
    by simp_all
  from Cons.IH [OF r ts] Update_body_heap_other [OF b t] show ?case by simp
qed

text \<open>
  C1, as stated, fails: the call of \<^verbatim>\<open>Update\<close> whose \<^verbatim>\<open>deltaTime\<close> brings the elapsed time to
  the duration writes the value for the elapsed time before that call. A record from \<open>0\<close>
  to \<open>8\<close> over two seconds, ticked with \<^verbatim>\<open>Update(1)\<close> twice, leaves \<open>4\<close> in the storage and
  is still active; built with \<^verbatim>\<open>From(&x)\<close> on the revision of \<^verbatim>\<open>part_000\<close>, added with
  \<^verbatim>\<open>AddTween\<close> on \<^verbatim>\<open>src/STween.h\<close>.
\<close>

theorem value_lags_one_call_counterexample:
  "observe 0 0
     (run_part_000 0
        [Call_From_ptr (Some 0) blank, Call_To (Fin 8), Call_Time 2,
         Call_Update 1, Call_Update 1] (fresh zeroes))
   = Inr (Fin 4,
          [TweenData (- 1) True True False (Some 0) (Fin 0) (Fin 8) 2 0 2 None None []],
          [Write 0 (Fin 0), Write 0 (Fin 4)])
   \<and> observe 0 0
     (run 0
        [Call_AddTween
           (TweenData (- 1) True True False (Some 0) (Fin 0) (Fin 8) 2 0 0 None None []),
         Call_Update 1, Call_Update 1] (fresh zeroes))
   = Inr (Fin 4,
          [TweenData 0 True True False (Some 0) (Fin 0) (Fin 8) 2 0 2 None None []],
          [Write 0 (Fin 0), Write 0 (Fin 4)])
   \<and> Fin 4 \<noteq> Fin 8"
  by (simp add: observe_def fresh_def zeroes_def blank_def
      setters members ticking ticking_part_000 Linear_def Let_def)

text \<open>
  C1, amended. Take any call of \<^verbatim>\<open>Update\<close> of \<^verbatim>\<open>src/STween.h\<close> that runs without an error, on
  an object with any records, and among them an active by-pointer record \<open>t\<close> with target
  \<open>a\<close>, any easing and any duration, such that no active by-pointer record behind \<open>t\<close> in the
  vector has the same target. What the call leaves in the target depends on the
  \<^verbatim>\<open>timeCounter\<close> the record has when the call starts, not on the \<^verbatim>\<open>deltaTime\<close> of the call:
  when \<^verbatim>\<open>timeCounter >= duration\<close> it is exactly the boundary value (\<^verbatim>\<open>finalValue\<close>, or
  \<^verbatim>\<open>initialCpy\<close> when reversed); otherwise it is the eased value at
  \<^verbatim>\<open>timeCounter / duration\<close>. So the call whose \<^verbatim>\<open>deltaTime\<close> brings the counter to the
  duration still leaves an eased value, and the exact boundary value is left by the first
  call that starts with the counter at or above the duration. The log of the call is, record
  by record in vector order, the events of \<open>tick_events\<close>: a by-value record passes the
  eased value to its step callback and delivers the boundary value nowhere.
\<close>

theorem final_value_written_by_completing_call:
  assumes "Update this deltaTime w = Inr w'"
    and "GetTweens this w = pre @ [t] @ post"
    and "fromReady t" and "byPointer t" and "initialValue t = Some a"
    and "\<forall>r\<in>set post. fromReady r \<and> byPointer r \<longrightarrow> initialValue r \<noteq> Some a"
  shows "heap w' a = (if duration t \<le> timeCounter t then boundary t else tween_value t)
       \<and> trace w' = trace w @ concat (map tick_events (GetTweens this w))"
proof -
  let ?l = "\<lparr>tweensToAdd = [], tweensToDelete = [], counter = 0\<rparr>"
  from assms(1) obtain v l1 w1 where
    lp: "Update_loop deltaTime (m_tweenVec (objs w this)) [] ?l w = Inr (v, l1, w1)"
    and w': "w' = fold (AddTween this) (tweensToAdd l1)
               (put this (erase_loop (rev (tweensToDelete l1))
                  ((objs w this)\<lparr>m_tweenVec := v\<rparr>)) w1)"
    by (rule Update_shape)
  have out: "heap w' = heap w1" "trace w' = trace w1"
    unfolding w' by (simp_all add: put_def)
  from assms(2) have vec: "m_tweenVec (objs w this) = pre @ ([t] @ post)"
    by (simp add: GetTweens_def)
  from lp obtain s2 l2 w2 where
    p1: "Update_loop deltaTime pre [] ?l w = Inr (s2, l2, w2)"
    and p2: "Update_loop deltaTime ([t] @ post) s2 l2 w2 = Inr (v, l1, w1)"
    unfolding vec Update_loop_append by (auto split: sum.splits)
  from p2 obtain t3 l3 w3 where
    b: "Update_body deltaTime t l2 w2 = Inr (t3, l3, w3)"
    and p3: "Update_loop deltaTime post (s2 @ [t3]) l3 w3 = Inr (v, l1, w1)"
    by (auto split: sum.splits)
  from Update_loop_heap_other [OF p3 assms(6)] Update_body_heap_own [OF b assms(3,4,5)]
  have "heap w1 a = (if duration t \<le> timeCounter t then boundary t else tween_value t)"
    by simp
  moreover from Update_loop_trace [OF lp]
  have "trace w1 = trace w @ concat (map tick_events (GetTweens this w))"
    by (simp add: GetTweens_def)
  ultimately show ?thesis by (simp add: out)
qed

theorem final_value_written_by_completing_call_witness:
  "Update 0 1
     (put 0 \<lparr>m_lastTweenIndex = 2,
             m_tweenVec =
               [TweenData 0 True False False None (Fin 0) (Fin 1) 1 0 1 None (Some 7) [],
                TweenData 1 True True False (Some 0) (Fin 0) (Fin 8) 2 0 3 (Some 3) None [],
                TweenData 2 True True False (Some 1) (Fin 0) (Fin 4) 2 0 1 None None []]\<rparr>
        (fresh zeroes))
   = Inr \<lparr>objs = (\<lambda>_. STween_ctor)
            (0 := \<lparr>m_lastTweenIndex = 0,
                   m_tweenVec =
                     [TweenData 2 True True False (Some 1) (Fin 0) (Fin 4) 2 0 2 None None []]\<rparr>),
          heap = zeroes(0 := Fin 8, 1 := Fin 2),
          trace = [Step 7 (Fin 1), Write 0 (Fin 12), Write 0 (Fin 8), Finish 3,
                   Write 1 (Fin 2)]\<rparr>
   \<and> heap \<lparr>objs = (\<lambda>_. STween_ctor)
            (0 := \<lparr>m_lastTweenIndex = 0,
                   m_tweenVec =
                     [TweenData 2 True True False (Some 1) (Fin 0) (Fin 4) 2 0 2 None None []]\<rparr>),
          heap = zeroes(0 := Fin 8, 1 := Fin 2),
          trace = [Step 7 (Fin 1), Write 0 (Fin 12), Write 0 (Fin 8), Finish 3,
                   Write 1 (Fin 2)]\<rparr> 0
     = boundary (TweenData 1 True True False (Some 0) (Fin 0) (Fin 8) 2 0 3 (Some 3) None [])"
proof -
  have u: "Update 0 1
     (put 0 \<lparr>m_lastTweenIndex = 2,
             m_tweenVec =
               [TweenData 0 True False False None (Fin 0) (Fin 1) 1 0 1 None (Some 7) [],
                TweenData 1 True True False (Some 0) (Fin 0) (Fin 8) 2 0 3 (Some 3) None [],
                TweenData 2 True True False (Some 1) (Fin 0) (Fin 4) 2 0 1 None None []]\<rparr>
        (fresh zeroes))
   = Inr \<lparr>objs = (\<lambda>_. STween_ctor)
            (0 := \<lparr>m_lastTweenIndex = 0,
                   m_tweenVec =
                     [TweenData 2 True True False (Some 1) (Fin 0) (Fin 4) 2 0 2 None None []]\<rparr>),
          heap = zeroes(0 := Fin 8, 1 := Fin 2),
          trace = [Step 7 (Fin 1), Write 0 (Fin 12), Write 0 (Fin 8), Finish 3,
                   Write 1 (Fin 2)]\<rparr>"
    by (simp add: fresh_def put_def setters members ticking Linear_def Let_def)
  have g: "GetTweens 0
     (put 0 \<lparr>m_lastTweenIndex = 2,
             m_tweenVec =
               [TweenData 0 True False False None (Fin 0) (Fin 1) 1 0 1 None (Some 7) [],
                TweenData 1 True True False (Some 0) (Fin 0) (Fin 8) 2 0 3 (Some 3) None [],
                TweenData 2 True True False (Some 1) (Fin 0) (Fin 4) 2 0 1 None None []]\<rparr>
        (fresh zeroes))
    = [TweenData 0 True False False None (Fin 0) (Fin 1) 1 0 1 None (Some 7) []]
      @ [TweenData 1 True True False (Some 0) (Fin 0) (Fin 8) 2 0 3 (Some 3) None []]
      @ [TweenData 2 True True False (Some 1) (Fin 0) (Fin 4) 2 0 1 None None []]"
    by (simp add: GetTweens_def put_def)
  from final_value_written_by_completing_call [OF u g] u show ?thesis
    by simp
qed

subsection \<open>Removal in the revision of \<^verbatim>\<open>part_000\<close>\<close>

text \<open>
  C4 holds for \<^verbatim>\<open>src/STween.h\<close> (\<open>inactive_only_if_appended\<close>) and fails for the revision of
  \<^verbatim>\<open>part_000\<close>. There the copy pushed to \<^verbatim>\<open>tweensToDelete\<close> is taken before
  \<^verbatim>\<open>timeCounter += deltaTime\<close>, and \<^verbatim>\<open>operator==\<close> compares \<^verbatim>\<open>timeCounter\<close>; with a
  \<^verbatim>\<open>deltaTime\<close> other than zero \<^verbatim>\<open>std::find\<close> does not find the record, which stays in the
  vector with \<^verbatim>\<open>fromReady = false\<close>, on this call and on every later one. The program is
  \<^verbatim>\<open>From(&x)\<close> with \<^verbatim>\<open>x = 0\<close>, \<^verbatim>\<open>To(10)\<close>, \<^verbatim>\<open>Time(1)\<close> and three, then five, calls of
  \<^verbatim>\<open>Update(0.5)\<close>; the record completes on the third.
\<close>

theorem part_000_keeps_completed_record:
  "observe 0 0
     (run_part_000 0
        [Call_From_ptr (Some 0) blank, Call_To (Fin 10), Call_Time 1,
         Call_Update (1 / 2), Call_Update (1 / 2), Call_Update (1 / 2)] (fresh zeroes))
   = Inr (Fin 10,
          [TweenData (- 1) False True False (Some 0) (Fin 0) (Fin 10) 1 0 (3 / 2) None None []],
          [Write 0 (Fin 0), Write 0 (Fin 5), Write 0 (Fin 10), Write 0 (Fin 10)])
   \<and> observe 0 0
     (run_part_000 0
        [Call_From_ptr (Some 0) blank, Call_To (Fin 10), Call_Time 1,
         Call_Update (1 / 2), Call_Update (1 / 2), Call_Update (1 / 2), Call_Update (1 / 2),
         Call_Update (1 / 2)] (fresh zeroes))
   = Inr (Fin 10,
          [TweenData (- 1) False True False (Some 0) (Fin 0) (Fin 10) 1 0 (3 / 2) None None []],
          [Write 0 (Fin 0), Write 0 (Fin 5), Write 0 (Fin 10), Write 0 (Fin 10)])"
  by (simp add: observe_def fresh_def zeroes_def blank_def
      setters members ticking_part_000 Linear_def Let_def)

text \<open>
  The record of that program, added with \<^verbatim>\<open>AddTween\<close> on \<^verbatim>\<open>src/STween.h\<close> and ticked the
  same way, leaves an empty vector.
\<close>

lemma STween_h_removes_completed_record:
  "observe 0 0
     (run 0
        [Call_AddTween
           (TweenData (- 1) True True False (Some 0) (Fin 0) (Fin 10) 1 0 0 None None []),
         Call_Update (1 / 2), Call_Update (1 / 2), Call_Update (1 / 2)] (fresh zeroes))
   = Inr (Fin 10, [],
          [Write 0 (Fin 0), Write 0 (Fin 5), Write 0 (Fin 10), Write 0 (Fin 10)])"
  by (simp add: observe_def fresh_def zeroes_def blank_def
      setters members ticking Linear_def Let_def)

end
